theory Spec2Isabelle
  imports Main "HOL-Library.Sublist"
begin

section \<open>JavaScript values\<close>

text \<open>
  The data service moves parsed JSON from the remote source into area objects without
  checking it, so a field of an area object can hold any JSON value, or be absent.
  \<open>JUndefined\<close> is JavaScript's \<open>undefined\<close>: the value of an absent property.
  Numbers are the integers of magnitude below \<open>10 ^ 21\<close>, which \<open>String\<close> writes with
  all their digits (fractions, larger magnitudes, NaN and the infinities are left out);
  an object is the list of its own properties.
\<close>

datatype jsval =
    JUndefined
  | JNull
  | JBool bool
  | JNum int
  | JStr string
  | JArr "jsval list"
  | JObj "(string \<times> jsval) list"

text \<open>What an \<open>if\<close>, \<open>&&\<close> or \<open>!\<close> takes for true.\<close>

fun truthy :: "jsval \<Rightarrow> bool" where
  "truthy JUndefined = False"
| "truthy JNull = False"
| "truthy (JBool b) = b"
| "truthy (JNum n) = (n \<noteq> 0)"
| "truthy (JStr s) = (s \<noteq> [])"
| "truthy (JArr xs) = True"
| "truthy (JObj kvs) = True"

text \<open>
  The errors the code can meet. \<open>AbortError\<close> is what \<open>fetch\<close> rejects with when the
  timeout aborts it; \<open>TypeError\<close> is a transport failure of \<open>fetch\<close> and also what a
  read of a property of \<open>null\<close> or a call of a non-function throws;
  \<open>StatusError status statusText\<close> is the plain \<open>Error\<close> that \<open>_fetchJSON\<close> makes from
  a response that is not ok; \<open>OtherError\<close> is any other exception, by name.
\<close>

datatype js_error =
    AbortError
  | TypeError
  | StatusError int string
  | OtherError string

text \<open>
  \<open>v.k\<close> for the property names the service reads (\<open>counties\<close>, \<open>constituencies\<close>,
  \<open>wards\<close>, \<open>name\<close>, \<open>code\<close>): it throws on \<open>undefined\<close> and \<open>null\<close>, finds an own
  property of an object, and is \<open>undefined\<close> on everything else.
\<close>

fun getProp :: "jsval \<Rightarrow> string \<Rightarrow> js_error + jsval" where
  "getProp JUndefined k = Inl TypeError"
| "getProp JNull k = Inl TypeError"
| "getProp (JObj kvs) k = (case map_of kvs k of None \<Rightarrow> Inr JUndefined | Some v \<Rightarrow> Inr v)"
| "getProp v k = Inr JUndefined"

definition bindE :: "js_error + 'a \<Rightarrow> ('a \<Rightarrow> js_error + 'b) \<Rightarrow> js_error + 'b" where
  "bindE m f = (case m of Inl e \<Rightarrow> Inl e | Inr x \<Rightarrow> f x)"

section \<open>Area records and the statistics aggregator\<close>

record area =
  name :: jsval
  code :: jsval
  type :: jsval
  county :: jsval
  constituency :: jsval

record stats =
  counties :: nat
  constituencies :: nat
  wards :: nat
  total :: nat

definition calculateStatistics :: "area list \<Rightarrow> stats" where
  "calculateStatistics data =
     \<lparr> counties = length (filter (\<lambda>item. type item = JStr ''county'') data),
       constituencies = length (filter (\<lambda>item. type item = JStr ''constituency'') data),
       wards = length (filter (\<lambda>item. type item = JStr ''ward'') data),
       total = length data \<rparr>"

text \<open>The three values the data model allows for \<open>type\<close>.\<close>

definition valid_type :: "jsval \<Rightarrow> bool" where
  "valid_type t = (t = JStr ''county'' \<or> t = JStr ''constituency'' \<or> t = JStr ''ward'')"

definition scenarioR :: "area list" where
  "scenarioR =
     [ \<lparr> name = JStr ''Nairobi'', code = JUndefined, type = JStr ''county'',
         county = JUndefined, constituency = JUndefined \<rparr>,
       \<lparr> name = JStr ''Westlands'', code = JUndefined, type = JStr ''constituency'',
         county = JStr ''Nairobi'', constituency = JUndefined \<rparr>,
       \<lparr> name = JStr ''Parklands'', code = JUndefined, type = JStr ''ward'',
         county = JStr ''Nairobi'', constituency = JStr ''Westlands'' \<rparr>,
       \<lparr> name = JStr ''Highridge'', code = JUndefined, type = JStr ''ward'',
         county = JStr ''Nairobi'', constituency = JStr ''Westlands'' \<rparr> ]"

section \<open>Strings\<close>

text \<open>
  Strings are byte lists; a character outside ASCII is its UTF-8 bytes. \<open>String(n)\<close>
  for a natural number is its decimal digits.
\<close>

fun string_of_nat :: "nat \<Rightarrow> string" where
  "string_of_nat n =
     (if n < 10 then [char_of (48 + n)]
      else string_of_nat (n div 10) @ [char_of (48 + n mod 10)])"

definition padStart :: "nat \<Rightarrow> char \<Rightarrow> string \<Rightarrow> string" where
  "padStart n c s = replicate (n - length s) c @ s"

text \<open>\<open>s.includes(t)\<close>: \<open>t\<close> occurs in \<open>s\<close> as a contiguous run.\<close>

primrec str_includes :: "string \<Rightarrow> string \<Rightarrow> bool" where
  "str_includes [] t = (t = [])"
| "str_includes (x # xs) t = (prefix t (x # xs) \<or> str_includes xs t)"

text \<open>
  \<open>s.toLowerCase()\<close> is the engine's lower-casing of every cased letter of Unicode; the
  filter takes it as a parameter, named \<open>toLowerCase\<close>. A sample for strings of ASCII
  letters: the letters A to Z are folded, every other byte stays.
\<close>

definition lower_char :: "char \<Rightarrow> char" where
  "lower_char c =
     (let n = (of_char c :: nat) in if 65 \<le> n \<and> n \<le> 90 then char_of (n + 32) else c)"

definition asciiLowerCase :: "string \<Rightarrow> string" where
  "asciiLowerCase s = map lower_char s"

text \<open>
  \<open>encodeURIComponent\<close>: letters, digits and \<open>- _ . ! ~ * ' ( )\<close> stay, every other
  byte becomes \<open>%XX\<close>.
\<close>

definition hex_digit :: "nat \<Rightarrow> char" where
  "hex_digit n = (if n < 10 then char_of (48 + n) else char_of (55 + n))"

definition uri_unreserved :: "char \<Rightarrow> bool" where
  "uri_unreserved c =
     (let n = (of_char c :: nat) in
        (65 \<le> n \<and> n \<le> 90) \<or> (97 \<le> n \<and> n \<le> 122) \<or> (48 \<le> n \<and> n \<le> 57)
        \<or> c \<in> set ''-_.!~*'()'')"

definition encodeURIComponent :: "string \<Rightarrow> string" where
  "encodeURIComponent s =
     concat (map (\<lambda>c. if uri_unreserved c then [c]
                       else [CHR ''%'', hex_digit (of_char c div 16), hex_digit (of_char c mod 16)]) s)"

primrec joinComma :: "string list \<Rightarrow> string" where
  "joinComma [] = []"
| "joinComma (s # ss) = (if ss = [] then s else s @ '','' @ joinComma ss)"

text \<open>
  \<open>String(v)\<close>, the conversion a template literal, a property key and the argument of
  \<open>localeCompare\<close> and \<open>encodeURIComponent\<close> go through. A number is written with
  all its digits, as \<open>String\<close> does for the integers below \<open>10 ^ 21\<close> that \<open>JNum\<close> stands
  for.
\<close>

fun toStringJS :: "jsval \<Rightarrow> string" where
  "toStringJS JUndefined = ''undefined''"
| "toStringJS JNull = ''null''"
| "toStringJS (JBool b) = (if b then ''true'' else ''false'')"
| "toStringJS (JNum n) = (if n < 0 then ''-'' @ string_of_nat (nat (- n)) else string_of_nat (nat n))"
| "toStringJS (JStr s) = s"
| "toStringJS (JArr xs) =
     joinComma (map (\<lambda>x. if x = JUndefined \<or> x = JNull then [] else toStringJS x) xs)"
| "toStringJS (JObj kvs) = ''[object Object]''"

section \<open>The fetch-resilience layer\<close>

text \<open>
  What the browser's \<open>fetch\<close> does is outside the code: one call either rejects with
  an error (\<open>AbortError\<close> when the timeout fired, \<open>TypeError\<close> on a transport failure)
  or resolves with a response. A response carries its status, its content type (if the
  header is there) and what reading its body as JSON or as text settles to.
\<close>

record response =
  status :: int
  statusText :: string
  contentType :: "string option"
  jsonBody :: "js_error + jsval"
  textBody :: "js_error + string"

datatype fetch_outcome = Rejected js_error | Resolved response

text \<open>\<open>res.ok\<close>: the status is in the range 200 to 299.\<close>

definition ok :: "response \<Rightarrow> bool" where
  "ok res = (200 \<le> status res \<and> status res \<le> 299)"

type_synonym options = "(string \<times> jsval) list"

text \<open>
  The network is a parameter: the outcome of the \<open>n\<close>-th call of \<open>fetch\<close> since the
  start, given the url, the options and the timeout that bounds the call. The world
  counts the calls made and records them, and the back-off delays slept, in order.
\<close>

type_synonym network = "nat \<Rightarrow> string \<Rightarrow> options \<Rightarrow> int \<Rightarrow> fetch_outcome"

datatype event = Request string | Sleep int

record world =
  clock :: nat
  trace :: "event list"

definition backoff :: "nat \<Rightarrow> int" where
  "backoff attempt = min (1000 * 2 ^ attempt) 8000"

definition isNetworkError :: "js_error \<Rightarrow> bool" where
  "isNetworkError err = (err = AbortError \<or> err = TypeError)"

text \<open>The body of the \<open>try\<close> of one attempt, from the outcome of its \<open>fetch\<close>.\<close>

definition attempt_body :: "fetch_outcome \<Rightarrow> js_error + jsval" where
  "attempt_body out =
     (case out of
        Rejected e \<Rightarrow> Inl e
      | Resolved res \<Rightarrow>
          if \<not> ok res then Inl (StatusError (status res) (statusText res))
          else if str_includes (case contentType res of None \<Rightarrow> [] | Some c \<Rightarrow> c) ''application/json''
          then jsonBody res
          else (case textBody res of Inl e \<Rightarrow> Inl e | Inr s \<Rightarrow> Inr (JStr s)))"

text \<open>
  The \<open>while (attempt <= retries)\<close> loop of \<open>_fetchJSON\<close>, from the current value of
  \<open>attempt\<close>. Leaving the loop by its condition returns \<open>undefined\<close>.
\<close>

function fetchLoop ::
  "network \<Rightarrow> string \<Rightarrow> options \<Rightarrow> int \<Rightarrow> int \<Rightarrow> nat \<Rightarrow> world \<Rightarrow> (js_error + jsval) \<times> world"
where
  "fetchLoop net url opts timeout retries attempt w =
     (if int attempt \<le> retries then
        (let w1 = w\<lparr> clock := Suc (clock w), trace := trace w @ [Request url] \<rparr> in
         case attempt_body (net (clock w) url opts timeout) of
           Inr v \<Rightarrow> (Inr v, w1)
         | Inl err \<Rightarrow>
             if int attempt < retries \<and> isNetworkError err
             then fetchLoop net url opts timeout retries (Suc attempt)
                    (w1\<lparr> trace := trace w1 @ [Sleep (backoff attempt)] \<rparr>)
             else (Inl err, w1))
      else (Inr JUndefined, w))"
  by pat_completeness auto
termination
  by (relation "measure (\<lambda>(net, url, opts, timeout, retries, attempt, w). nat (retries - int attempt))")
     auto

definition fetchJSON ::
  "network \<Rightarrow> string \<Rightarrow> options \<Rightarrow> int \<Rightarrow> int \<Rightarrow> world \<Rightarrow> (js_error + jsval) \<times> world"
where
  "fetchJSON net url opts timeout retries w = fetchLoop net url opts timeout retries 0 w"

text \<open>The requests and the delays of a trace, each in order.\<close>

definition requests :: "event list \<Rightarrow> string list" where
  "requests tr = concat (map (\<lambda>e. case e of Request u \<Rightarrow> [u] | Sleep d \<Rightarrow> []) tr)"

definition delays :: "event list \<Rightarrow> int list" where
  "delays tr = concat (map (\<lambda>e. case e of Request u \<Rightarrow> [] | Sleep d \<Rightarrow> [d]) tr)"

text \<open>
  The trace of a call that made \<open>k + 1\<close> attempts starting at attempt \<open>a\<close>: a request,
  then for each further attempt the back-off delay of the attempt that failed and the
  next request.
\<close>

primrec attempts_trace :: "string \<Rightarrow> nat \<Rightarrow> nat \<Rightarrow> event list" where
  "attempts_trace url a 0 = [Request url]"
| "attempts_trace url a (Suc k) = Request url # Sleep (backoff a) # attempts_trace url (Suc a) k"

section \<open>The area repository\<close>

record dataService =
  apiBase :: string
  cache :: "string \<rightharpoonup> area list"
  useMockData :: bool

text \<open>The constructor.\<close>

definition newDataService :: dataService where
  "newDataService =
     \<lparr> apiBase = ''https://kenyaareadata.vercel.app/api'', cache = Map.empty, useMockData = True \<rparr>"

definition clearCache :: "dataService \<Rightarrow> dataService" where
  "clearCache ds = ds\<lparr> cache := Map.empty \<rparr>"

subsection \<open>The built-in data\<close>

definition en_dash :: string where
  "en_dash = [CHR 0xE2, CHR 0x80, CHR 0x93]"

definition countyData :: "(string \<times> string list) list" where
  "countyData =
     [
       (''Nairobi'',
        [''Westlands'', ''Dagoretti North'', ''Dagoretti South'', ''Langata'', ''Kibra'',
         ''Kambiokeji'', ''Roysambu'', ''Embakasi East'', ''Embakasi Central'',
         ''Embakasi North'', ''Embakasi West'', ''Embakasi South'', ''Kamukunji'',
         ''Starehe'', ''Madaraka'', ''Kasarani'', ''Ruaraka'']),
       (''Mombasa'',
        [''Mvita'', ''Changamwe'', ''Kisauni'', ''Nyali'', ''Jomvu'', ''Likoni'']),
       (''Kwale'',
        [''Msambweni'', ''Lunga Lunga'', ''Matuga'', ''Kinango'']),
       (''Kilifi'',
        [''Kilifi North'', ''Kilifi South'', ''Kaloleni'', ''Rabai'', ''Ganze'', ''Malindi'',
         ''Magarini'']),
       (''Tana River'',
        [''Garsen'', ''Galole'', ''Bura'']),
       (''Lamu'',
        [''Lamu East'', ''Lamu West'']),
       (''Taita'' @ en_dash @ ''Taveta'',
        [''Taveta'', ''Wundanyi'', ''Mwatate'', ''Voi'']),
       (''Garissa'',
        [''Garissa Township'', ''Balambala'', ''Lagdera'', ''Dadaab'', ''Fafi'', ''Ijara'']),
       (''Wajir'',
        [''Wajir North'', ''Wajir East'', ''Tarbaj'', ''Wajir West'', ''Eldas'',
         ''Wajir South'']),
       (''Mandera'',
        [''Mandera West'', ''Banissa'', ''Mandera North'', ''Mandera South'',
         ''Mandera East'', ''Lafey'']),
       (''Marsabit'',
        [''Moyale'', ''North Horr'', ''Saku'', ''Laisamis'']),
       (''Isiolo'',
        [''Isiolo North'', ''Isiolo South'']),
       (''Meru'',
        [''Igembe South'', ''Igembe Central'', ''Igembe North'', ''Tigania West'',
         ''Tigania East'', ''North Imenti'', ''Buuri'', ''South Imenti'',
         ''Imenti Central'']),
       (''Tharaka-Nithi'',
        [''Maara'', ''Chuka/Igambang'ombe'', ''Tharaka'']),
       (''Embu'',
        [''Manyatta'', ''Runyenjes'', ''Mbeere South'', ''Mbeere North'']),
       (''Kitui'',
        [''Mwingi North'', ''Mwingi West'', ''Mwingi Central'', ''Kitui West'',
         ''Kitui Rural'', ''Kitui Central'', ''Kitui East'', ''Kitui South'']),
       (''Machakos'',
        [''Masinga'', ''Yatta'', ''Kangundo'', ''Matungulu'', ''Kathiani'', ''Mavoko'',
         ''Machakos Town'', ''Mwala'']),
       (''Makueni'',
        [''Mbooni'', ''Kilome'', ''Kaiti'', ''Makueni'', ''Kibwezi West'', ''Kibwezi East'']),
       (''Nyandarua'',
        [''Kinangop'', ''Kipipiri'', ''Ol Kalou'', ''Ol Jorok'', ''Ndaragwa'']),
       (''Nyeri'',
        [''Tetu'', ''Kieni'', ''Mathira'', ''Othaya'', ''Mukurweini'', ''Nyeri Town'']),
       (''Kirinyaga'',
        [''Mwea'', ''Gichugu'', ''Ndia'', ''Kirinyaga Central'']),
       (''Murang'a'',
        [''Kangema'', ''Mathioya'', ''Kiharu'', ''Kigumo'', ''Maragwa'', ''Kandara'',
         ''Gatanga'']),
       (''Kiambu'',
        [''Gatundu South'', ''Gatundu North'', ''Juja'', ''Thika Town'', ''Ruiru'',
         ''Githunguri'', ''Kiambu'', ''Kiambaa'', ''Lari'', ''Limuru'', ''Kabete'',
         ''Kasarani'']),
       (''Turkana'',
        [''Turkana North'', ''Turkana West'', ''Turkana Central'', ''Loima'',
         ''Turkana South'', ''Turkana East'']),
       (''West Pokot'',
        [''Kapenguria'', ''Sigor'', ''Kacheliba'', ''Pokot South'']),
       (''Samburu'',
        [''Samburu West'', ''Samburu North'', ''Samburu East'']),
       (''Trans-Nzoia'',
        [''Kwanza'', ''Endebess'', ''Saboti'', ''Kiminini'', ''Cherangany'']),
       (''Uasin Gishu'',
        [''Soy'', ''Turbo'', ''Moiben'', ''Ainabkoi'', ''Kapseret'', ''Kesses'']),
       (''Elgeyo-Marakwet'',
        [''Marakwet East'', ''Marakwet West'', ''Keiyo North'', ''Keiyo South'']),
       (''Nandi'',
        [''Tinderet'', ''Aldai'', ''Nandi Hills'', ''Chesumei'', ''Emgwen'', ''Mosop'']),
       (''Baringo'',
        [''Tiaty'', ''Baringo North'', ''Baringo Central'', ''Baringo South'', ''Mogotio'',
         ''Eldama Ravine'']),
       (''Laikipia'',
        [''Laikipia West'', ''Laikipia East'', ''Laikipia North'']),
       (''Nakuru'',
        [''Molo'', ''Njoro'', ''Naivasha'', ''Gilgil'', ''Kuresoi South'', ''Kuresoi North'',
         ''Subukia'', ''Rongai'', ''Narok'', ''Nakuru Town East'', ''Nakuru Town West'']),
       (''Narok'',
        [''Kilgoris'', ''Emurua Dikirr'', ''Narok North'', ''Narok East'', ''Narok South'',
         ''Narok West'']),
       (''Kajiado'',
        [''Kajiado North'', ''Kajiado Central'', ''Kajiado East'', ''Kajiado West'',
         ''Kajiado South'']),
       (''Kericho'',
        [''Kipkelion East'', ''Kipkelion West'', ''Ainamoi'', ''Bureti'', ''Belgut'',
         ''Sigowet'' @ en_dash @ ''Soin'']),
       (''Bomet'',
        [''Sotik'', ''Chepalungu'', ''Bomet East'', ''Bomet Central'', ''Konoin'']),
       (''Kakamega'',
        [''Lugari'', ''Likuyani'', ''Malava'', ''Lurambi'', ''Navakholo'', ''Mumias West'',
         ''Mumias East'', ''Matungu'', ''Khwisero'', ''Mutsami'', ''Karaba'', ''Butere'']),
       (''Vihiga'',
        [''Vihiga'', ''Sabatia'', ''Hamisi'', ''Luanda'', ''Emuhaya'']),
       (''Bungoma'',
        [''Mount Elgon'', ''Sirisia'', ''Kabuchai'', ''Bumula'', ''Kanduyi'',
         ''Webuye East'', ''Webuye West'', ''Kimilili'', ''Kimusi'']),
       (''Busia'',
        [''Teso North'', ''Teso South'', ''Nambale'', ''Matayos'', ''Butula'', ''Funyula'',
         ''Budalangi'']),
       (''Siaya'',
        [''Ugenya'', ''Ugunja'', ''Alego Usonga'', ''Gem'', ''Bondo'', ''Rarieda'']),
       (''Kisumu'',
        [''Kisumu East'', ''Kisumu West'', ''Kisumu Central'', ''Seme'', ''Nyando'',
         ''Muhoroni'', ''Nyakach'']),
       (''Homa Bay'',
        [''Kasipul'', ''Kabondo Kasipul'', ''Karachuonyo'', ''Rangwe'', ''Homa Bay Town'',
         ''Ndhiwa'', ''Suba North'', ''Suba South'']),
       (''Migori'',
        [''Rongo'', ''Awendo'', ''Suna East'', ''Suna West'', ''Uriri'', ''Nyatike'',
         ''Kuria West'', ''Kuria East'']),
       (''Kisii'',
        [''Bonchari'', ''South Mugirango'', ''Bomachoge Borabu'', ''Bobasi'',
         ''Bomachoge Chache'', ''Nyaribari Masaba'', ''Nyaribari Chache'',
         ''West Mugirango'', ''Kitutu Masaba'']),
       (''Nyamira'',
        [''Kitutu Masaba'', ''West Mugirango'', ''North Mugirango'', ''Borabu''])
     ]"

definition county_code :: "nat \<Rightarrow> string" where
  "county_code countyCode = padStart 3 CHR ''0'' (string_of_nat countyCode)"

definition const_code :: "nat \<Rightarrow> nat \<Rightarrow> string" where
  "const_code countyCode constIdx =
     county_code countyCode @ ''-'' @ padStart 2 CHR ''0'' (string_of_nat (constIdx + 1))"

definition mockCountyRow :: "nat \<Rightarrow> string \<Rightarrow> area" where
  "mockCountyRow countyCode c =
     \<lparr> name = JStr c, code = JStr (county_code countyCode), type = JStr ''county'',
       county = JStr c, constituency = JUndefined \<rparr>"

definition mockConstituencyRow :: "nat \<Rightarrow> string \<Rightarrow> nat \<Rightarrow> string \<Rightarrow> area" where
  "mockConstituencyRow countyCode c constIdx const =
     \<lparr> name = JStr const, code = JStr (const_code countyCode constIdx),
       type = JStr ''constituency'', county = JStr c, constituency = JUndefined \<rparr>"

definition mockWardRow :: "nat \<Rightarrow> string \<Rightarrow> nat \<Rightarrow> string \<Rightarrow> nat \<Rightarrow> area" where
  "mockWardRow countyCode c constIdx const w =
     \<lparr> name = JStr (const @ '' Ward '' @ string_of_nat w),
       code = JStr (const_code countyCode constIdx @ ''-'' @ string_of_nat w),
       type = JStr ''ward'', county = JStr c, constituency = JStr const \<rparr>"

text \<open>The rows one constituency pushes: itself, then its five wards.\<close>

definition mockConstituencyRows :: "nat \<Rightarrow> string \<Rightarrow> nat \<times> string \<Rightarrow> area list" where
  "mockConstituencyRows countyCode c ic =
     mockConstituencyRow countyCode c (fst ic) (snd ic)
       # map (mockWardRow countyCode c (fst ic) (snd ic)) [1 ..< 6]"

text \<open>
  The loop over the entries of \<open>countyData\<close>, from the current value of \<open>countyCode\<close>.
\<close>

fun mockRows :: "nat \<Rightarrow> (string \<times> string list) list \<Rightarrow> area list" where
  "mockRows countyCode [] = []"
| "mockRows countyCode ((c, cs) # rest) =
     mockCountyRow countyCode c
       # concat (map (mockConstituencyRows countyCode c) (enumerate 0 cs))
       @ mockRows (Suc countyCode) rest"

definition getComprehensiveMockData :: "area list" where
  "getComprehensiveMockData = mockRows 1 countyData"

definition getMockCounties :: jsval where
  "getMockCounties =
     JArr [ JObj [(''name'', JStr ''Nairobi''), (''code'', JStr ''047'')],
            JObj [(''name'', JStr ''Mombasa''), (''code'', JStr ''001'')],
            JObj [(''name'', JStr ''Kiambu''), (''code'', JStr ''022'')],
            JObj [(''name'', JStr ''Nakuru''), (''code'', JStr ''032'')],
            JObj [(''name'', JStr ''Kisumu''), (''code'', JStr ''042'')] ]"

subsection \<open>Retrieval\<close>

text \<open>\<open>xs.forEach(f)\<close> where \<open>f\<close> pushes rows: only an array has \<open>forEach\<close>.\<close>

fun concatMapE :: "('a \<Rightarrow> js_error + 'b list) \<Rightarrow> 'a list \<Rightarrow> js_error + 'b list" where
  "concatMapE f [] = Inr []"
| "concatMapE f (x # xs) =
     bindE (f x) (\<lambda>a. bindE (concatMapE f xs) (\<lambda>b. Inr (a @ b)))"

definition forEachE :: "jsval \<Rightarrow> (jsval \<Rightarrow> js_error + 'b list) \<Rightarrow> js_error + 'b list" where
  "forEachE v f = (case v of JArr xs \<Rightarrow> concatMapE f xs | _ \<Rightarrow> Inl TypeError)"

text \<open>
  \<open>fetchCounties\<close>. The \<open>try\<close> block first, then the function with its \<open>catch\<close>, which
  answers any error with the built-in county list.
\<close>

definition fetchCounties_try ::
  "dataService \<Rightarrow> network \<Rightarrow> world \<Rightarrow> (js_error + jsval) \<times> world" where
  "fetchCounties_try ds net w =
     (if useMockData ds then (Inr getMockCounties, w)
      else
        (case fetchJSON net (apiBase ds @ ''/counties'') [] 8000 2 w of
           (r, w1) \<Rightarrow>
             (bindE r (\<lambda>data.
                if truthy data then
                  bindE (getProp data ''counties'') (\<lambda>cs. Inr (if truthy cs then cs else JArr []))
                else Inr (JArr [])), w1)))"

definition fetchCounties ::
  "dataService \<Rightarrow> network \<Rightarrow> world \<Rightarrow> (js_error + jsval) \<times> world" where
  "fetchCounties ds net w =
     (case fetchCounties_try ds net w of
        (Inl e, w1) \<Rightarrow> (Inr getMockCounties, w1)
      | (Inr cs, w1) \<Rightarrow> (Inr cs, w1))"

text \<open>The rows of one constituency of the remote answer, and of one of its wards.\<close>

definition wardRow :: "jsval \<Rightarrow> jsval \<Rightarrow> jsval \<Rightarrow> js_error + area list" where
  "wardRow countyName con wd =
     bindE (getProp wd ''name'') (\<lambda>wn.
     bindE (getProp wd ''code'') (\<lambda>wc.
     bindE (getProp con ''name'') (\<lambda>cn.
       Inr [\<lparr> name = wn, code = wc, type = JStr ''ward'', county = countyName,
              constituency = cn \<rparr>])))"

definition constituencyRows :: "jsval \<Rightarrow> jsval \<Rightarrow> js_error + area list" where
  "constituencyRows countyName con =
     bindE (getProp con ''name'') (\<lambda>cn.
     bindE (getProp con ''code'') (\<lambda>cc.
     bindE (getProp con ''wards'') (\<lambda>ws.
     bindE (if truthy ws then forEachE ws (wardRow countyName con) else Inr []) (\<lambda>rows.
       Inr (\<lparr> name = cn, code = cc, type = JStr ''constituency'', county = countyName,
               constituency = JUndefined \<rparr> # rows)))))"

definition fetchAreasByCounty_try ::
  "dataService \<Rightarrow> network \<Rightarrow> jsval \<Rightarrow> world \<Rightarrow> (js_error + area list) \<times> world" where
  "fetchAreasByCounty_try ds net countyName w =
     (if useMockData ds then
        (Inr (filter (\<lambda>item. county item = countyName \<and> type item \<noteq> JStr ''county'')
                getComprehensiveMockData), w)
      else
        (case fetchJSON net
                (apiBase ds @ ''/areas?county='' @ encodeURIComponent (toStringJS countyName))
                [] 8000 2 w of
           (r, w1) \<Rightarrow>
             (bindE r (\<lambda>data.
              bindE (getProp data ''constituencies'') (\<lambda>cs.
                if truthy cs then forEachE cs (constituencyRows countyName) else Inr [])), w1)))"

definition fetchAreasByCounty ::
  "dataService \<Rightarrow> network \<Rightarrow> jsval \<Rightarrow> world \<Rightarrow> (js_error + area list) \<times> world" where
  "fetchAreasByCounty ds net countyName w =
     (case fetchAreasByCounty_try ds net countyName w of
        (Inl e, w1) \<Rightarrow> (Inr [], w1)
      | (Inr areas, w1) \<Rightarrow> (Inr areas, w1))"

text \<open>The row \<open>fetchAllAreas\<close> pushes for one entry of the county list.\<close>

definition countyRow :: "jsval \<Rightarrow> js_error + area list" where
  "countyRow c =
     bindE (getProp c ''name'') (\<lambda>n.
     bindE (getProp c ''code'') (\<lambda>cd.
       Inr [\<lparr> name = n, code = cd, type = JStr ''county'', county = n,
              constituency = JUndefined \<rparr>]))"

text \<open>
  One turn of the \<open>for (const county of counties)\<close> loop: the rows the county adds. Its
  own \<open>try\<close>/\<open>catch\<close> turns an error into no rows.
\<close>

definition countyAreas ::
  "dataService \<Rightarrow> network \<Rightarrow> jsval \<Rightarrow> world \<Rightarrow> area list \<times> world" where
  "countyAreas ds net c w =
     (case getProp c ''name'' of
        Inl e \<Rightarrow> ([], w)
      | Inr n \<Rightarrow>
          (case fetchAreasByCounty ds net n w of
             (Inl e, w1) \<Rightarrow> ([], w1)
           | (Inr areas, w1) \<Rightarrow> (areas, w1)))"

fun areasLoop ::
  "dataService \<Rightarrow> network \<Rightarrow> jsval list \<Rightarrow> world \<Rightarrow> area list \<times> world" where
  "areasLoop ds net [] w = ([], w)"
| "areasLoop ds net (c # cs) w =
     (case countyAreas ds net c w of
        (rows, w1) \<Rightarrow> (case areasLoop ds net cs w1 of (rest, w2) \<Rightarrow> (rows @ rest, w2)))"

text \<open>
  \<open>fetchAllAreas\<close>. The \<open>try\<close> block first; then the function, whose \<open>catch\<close> answers
  any error with the built-in data set. A result comes with the service (its cache may
  have been written) and the world.
\<close>

definition fetchAllAreas_try ::
  "dataService \<Rightarrow> network \<Rightarrow> world \<Rightarrow> (js_error + area list) \<times> dataService \<times> world" where
  "fetchAllAreas_try ds net w =
     (if useMockData ds then (Inr getComprehensiveMockData, ds, w)
      else
        (case cache ds ''allAreas'' of
           Some cached \<Rightarrow> (Inr cached, ds, w)
         | None \<Rightarrow>
             (case fetchCounties ds net w of
                (Inl e, w1) \<Rightarrow> (Inl e, ds, w1)
              | (Inr cl, w1) \<Rightarrow>
                  (case forEachE cl countyRow of
                     Inl e \<Rightarrow> (Inl e, ds, w1)
                   | Inr rows \<Rightarrow>
                       (case areasLoop ds net (case cl of JArr cs \<Rightarrow> cs | _ \<Rightarrow> []) w1 of
                          (rest, w2) \<Rightarrow>
                            (Inr (rows @ rest),
                             ds\<lparr> cache := (cache ds)(''allAreas'' \<mapsto> rows @ rest) \<rparr>,
                             w2))))))"

definition fetchAllAreas ::
  "dataService \<Rightarrow> network \<Rightarrow> world \<Rightarrow> (js_error + area list) \<times> dataService \<times> world" where
  "fetchAllAreas ds net w =
     (case fetchAllAreas_try ds net w of
        (Inl e, ds1, w1) \<Rightarrow> (Inr getComprehensiveMockData, ds1, w1)
      | (Inr areas, ds1, w1) \<Rightarrow> (Inr areas, ds1, w1))"

section \<open>The filter and sort engine\<close>

text \<open>
  \<open>Array.prototype.sort\<close> with a comparator: the sort is stable, and an exception of
  the comparator ends it. The language fixes the result for a comparator that is a
  consistent order, and leaves to the engine which pairs are compared; the model inserts
  from the right, each element in front of the first one it does not come after.
\<close>

fun insertE :: "('a \<Rightarrow> 'a \<Rightarrow> js_error + int) \<Rightarrow> 'a \<Rightarrow> 'a list \<Rightarrow> js_error + 'a list" where
  "insertE cmp x [] = Inr [x]"
| "insertE cmp x (y # ys) =
     bindE (cmp x y) (\<lambda>c.
       if c \<le> 0 then Inr (x # y # ys)
       else bindE (insertE cmp x ys) (\<lambda>zs. Inr (y # zs)))"

fun arraySort :: "('a \<Rightarrow> 'a \<Rightarrow> js_error + int) \<Rightarrow> 'a list \<Rightarrow> js_error + 'a list" where
  "arraySort cmp [] = Inr []"
| "arraySort cmp (x # xs) = bindE (arraySort cmp xs) (insertE cmp x)"

text \<open>
  \<open>a.localeCompare(b)\<close>: the locale's collation of strings is a parameter \<open>lc\<close>
  (negative, zero or positive). Only a string has the method; the argument is converted
  to a string.
\<close>

definition localeCompareJS :: "(string \<Rightarrow> string \<Rightarrow> int) \<Rightarrow> jsval \<Rightarrow> jsval \<Rightarrow> js_error + int" where
  "localeCompareJS lc a b = (case a of JStr s \<Rightarrow> Inr (lc s (toStringJS b)) | _ \<Rightarrow> Inl TypeError)"

text \<open>
  \<open>typeOrder[k]\<close> as a number: a key that is not one of the three gives a value that
  makes the difference NaN, here \<open>None\<close>.
\<close>

definition typeOrder :: "string \<Rightarrow> int option" where
  "typeOrder k =
     (if k = ''county'' then Some 1 else if k = ''constituency'' then Some 2
      else if k = ''ward'' then Some 3 else None)"

text \<open>The comparator of the \<open>type\<close> sort; a comparator that returns NaN counts as 0.\<close>

definition typeCompare :: "(string \<Rightarrow> string \<Rightarrow> int) \<Rightarrow> area \<Rightarrow> area \<Rightarrow> js_error + int" where
  "typeCompare lc a b =
     (case (typeOrder (toStringJS (type a)), typeOrder (toStringJS (type b))) of
        (Some x, Some y) \<Rightarrow>
          if x - y \<noteq> 0 then Inr (x - y) else localeCompareJS lc (name a) (name b)
      | _ \<Rightarrow> Inr 0)"

text \<open>\<open>sortData\<close> on the contents of the arrays: from those of \<open>data\<close> to those of the result.\<close>

definition sortData :: "(string \<Rightarrow> string \<Rightarrow> int) \<Rightarrow> area list \<Rightarrow> string \<Rightarrow> js_error + area list" where
  "sortData lc data sortBy =
     (if sortBy = ''name'' then arraySort (\<lambda>a b. localeCompareJS lc (name a) (name b)) data
      else if sortBy = ''name-desc'' then arraySort (\<lambda>a b. localeCompareJS lc (name b) (name a)) data
      else if sortBy = ''type'' then arraySort (typeCompare lc) data
      else Inr data)"

text \<open>
  \<open>sortData\<close> on a store of arrays, where an array is named by its address (its index in
  the store), so that the argument and the result can be told apart. \<open>[...data]\<close>
  allocates a new array with the contents of \<open>data\<close>; \<open>sort\<close> rearranges the array it
  is called on and returns it. An address that names no array stands for an argument
  that cannot be spread.
\<close>

type_synonym heap = "area list list"

definition arraySortH ::
  "(area \<Rightarrow> area \<Rightarrow> js_error + int) \<Rightarrow> heap \<Rightarrow> nat \<Rightarrow> (js_error + nat) \<times> heap" where
  "arraySortH cmp h a =
     (case arraySort cmp (h ! a) of
        Inl e \<Rightarrow> (Inl e, h)
      | Inr xs \<Rightarrow> (Inr a, h[a := xs]))"

definition sortDataH ::
  "(string \<Rightarrow> string \<Rightarrow> int) \<Rightarrow> heap \<Rightarrow> nat \<Rightarrow> string \<Rightarrow> (js_error + nat) \<times> heap" where
  "sortDataH lc h data sortBy =
     (if data < length h then
        (let sorted = length h; h1 = h @ [h ! data] in
         if sortBy = ''name''
         then arraySortH (\<lambda>a b. localeCompareJS lc (name a) (name b)) h1 sorted
         else if sortBy = ''name-desc''
         then arraySortH (\<lambda>a b. localeCompareJS lc (name b) (name a)) h1 sorted
         else if sortBy = ''type'' then arraySortH (typeCompare lc) h1 sorted
         else (Inr sorted, h1))
      else (Inl TypeError, h))"

text \<open>
  The predicate of the filter in \<open>applyFilters\<close>, with \<open>searchTerm\<close> already in lower
  case. \<open>toLowerCase\<close>, the engine's lower-casing, is a method of strings only.
\<close>

definition matchesSearch :: "(string \<Rightarrow> string) \<Rightarrow> string \<Rightarrow> area \<Rightarrow> js_error + bool" where
  "matchesSearch toLowerCase searchTerm item =
     (if searchTerm = [] then Inr True
      else
        (case name item of
           JStr n \<Rightarrow>
             if str_includes (toLowerCase n) searchTerm then Inr True
             else if truthy (county item) then
               (case county item of
                  JStr c \<Rightarrow> Inr (str_includes (toLowerCase c) searchTerm)
                | _ \<Rightarrow> Inl TypeError)
             else Inr False
         | _ \<Rightarrow> Inl TypeError))"

definition itemMatches ::
  "(string \<Rightarrow> string) \<Rightarrow> string \<Rightarrow> string \<Rightarrow> string \<Rightarrow> area \<Rightarrow> js_error + bool" where
  "itemMatches toLowerCase searchTerm selectedCounty selectedType item =
     bindE (matchesSearch toLowerCase searchTerm item) (\<lambda>ms.
       Inr (ms \<and> (selectedCounty = [] \<or> county item = JStr selectedCounty)
               \<and> (selectedType = [] \<or> type item = JStr selectedType)))"

text \<open>\<open>xs.filter(p)\<close> for a predicate that can throw.\<close>

fun filterE :: "('a \<Rightarrow> js_error + bool) \<Rightarrow> 'a list \<Rightarrow> js_error + 'a list" where
  "filterE p [] = Inr []"
| "filterE p (x # xs) =
     bindE (p x) (\<lambda>b. bindE (filterE p xs) (\<lambda>ys. Inr (if b then x # ys else ys)))"

text \<open>
  \<open>applyFilters\<close>, from the values of the four controls and \<open>currentData\<close> to
  \<open>filteredData\<close>: first the filter, then the sort.
\<close>

definition filterStage ::
  "(string \<Rightarrow> string) \<Rightarrow> string \<Rightarrow> string \<Rightarrow> string \<Rightarrow> area list \<Rightarrow> js_error + area list" where
  "filterStage toLowerCase searchInput selectedCounty selectedType currentData =
     filterE (itemMatches toLowerCase (toLowerCase searchInput) selectedCounty selectedType)
       currentData"

definition applyFilters ::
  "(string \<Rightarrow> string \<Rightarrow> int) \<Rightarrow> (string \<Rightarrow> string) \<Rightarrow> string \<Rightarrow> string \<Rightarrow> string \<Rightarrow> string
     \<Rightarrow> area list \<Rightarrow> js_error + area list" where
  "applyFilters lc toLowerCase searchInput selectedCounty selectedType sortBy currentData =
     bindE (filterStage toLowerCase searchInput selectedCounty selectedType currentData)
       (\<lambda>filteredData. sortData lc filteredData sortBy)"

section \<open>Debounce\<close>













section \<open>Sample inputs\<close>

definition w0 :: world where
  "w0 = \<lparr> clock = 0, trace = [] \<rparr>"

text \<open>A network on which every call times out, and one that answers 404 to every call.\<close>

definition net_timeout :: network where
  "net_timeout = (\<lambda>n url opts timeout. Rejected AbortError)"

definition net_404 :: network where
  "net_404 = (\<lambda>n url opts timeout.
     Resolved \<lparr> status = 404, statusText = ''Not Found'', contentType = Some ''text/html'',
                jsonBody = Inl (OtherError ''SyntaxError''), textBody = Inr ''not found'' \<rparr>)"

text \<open>
  The service in live mode, a network on which every call fails in transport, and the
  rows the service then returns.
\<close>

definition liveService :: dataService where
  "liveService = newDataService\<lparr> useMockData := False \<rparr>"

definition net_down :: network where
  "net_down = (\<lambda>n url opts timeout. Rejected TypeError)"

definition builtinCountyRow :: "string \<Rightarrow> string \<Rightarrow> area" where
  "builtinCountyRow n c =
     \<lparr> name = JStr n, code = JStr c, type = JStr ''county'', county = JStr n,
       constituency = JUndefined \<rparr>"

definition fiveCountyRows :: "area list" where
  "fiveCountyRows =
     [ builtinCountyRow ''Nairobi'' ''047'', builtinCountyRow ''Mombasa'' ''001'',
       builtinCountyRow ''Kiambu'' ''022'', builtinCountyRow ''Nakuru'' ''032'',
       builtinCountyRow ''Kisumu'' ''042'' ]"

text \<open>
  A JSON answer with the given body, and a network that answers the first call with a
  list of two counties, fails the second with status 500 and answers the third with one
  constituency that has one ward.
\<close>

definition jsonResponse :: "jsval \<Rightarrow> fetch_outcome" where
  "jsonResponse v =
     Resolved \<lparr> status = 200, statusText = ''OK'', contentType = Some ''application/json'',
                jsonBody = Inr v, textBody = Inr [] \<rparr>"

definition serverError :: fetch_outcome where
  "serverError =
     Resolved \<lparr> status = 500, statusText = ''Internal Server Error'', contentType = None,
                jsonBody = Inl (OtherError ''SyntaxError''), textBody = Inr [] \<rparr>"

definition twoCounties :: "jsval list" where
  "twoCounties =
     [ JObj [(''name'', JStr ''Lamu''), (''code'', JStr ''005'')],
       JObj [(''name'', JStr ''Isiolo''), (''code'', JStr ''011'')] ]"

definition isioloAreas :: jsval where
  "isioloAreas =
     JObj [(''constituencies'',
            JArr [ JObj [(''name'', JStr ''Isiolo North''), (''code'', JStr ''049''),
                         (''wards'', JArr [ JObj [(''name'', JStr ''Wabera''),
                                                  (''code'', JStr ''0241'')] ])] ])]"

definition net_partial :: network where
  "net_partial = (\<lambda>n url opts timeout.
     if n = 0 then jsonResponse (JObj [(''counties'', JArr twoCounties)])
     else if n = 1 then serverError
     else jsonResponse isioloAreas)"

definition partialRows :: "area list" where
  "partialRows =
     [ builtinCountyRow ''Lamu'' ''005'', builtinCountyRow ''Isiolo'' ''011'',
       \<lparr> name = JStr ''Isiolo North'', code = JStr ''049'', type = JStr ''constituency'',
         county = JStr ''Isiolo'', constituency = JUndefined \<rparr>,
       \<lparr> name = JStr ''Wabera'', code = JStr ''0241'', type = JStr ''ward'',
         county = JStr ''Isiolo'', constituency = JStr ''Isiolo North'' \<rparr> ]"

text \<open>A network whose county list holds a county with an empty name.\<close>

definition net_blank :: network where
  "net_blank = (\<lambda>n url opts timeout.
     if n = 0 then jsonResponse (JObj [(''counties'', JArr [JObj [(''name'', JStr [])]])])
     else jsonResponse (JObj [(''constituencies'', JArr [JObj [(''name'', JStr ''Central'')]])]))"

definition blankRows :: "area list" where
  "blankRows =
     [ \<lparr> name = JStr [], code = JUndefined, type = JStr ''county'', county = JStr [],
         constituency = JUndefined \<rparr>,
       \<lparr> name = JStr ''Central'', code = JUndefined, type = JStr ''constituency'',
         county = JStr [], constituency = JUndefined \<rparr> ]"

text \<open>The shape of the records of the built-in data, and the shape every assembled record has.\<close>

definition nonEmptyString :: "jsval \<Rightarrow> bool" where
  "nonEmptyString v = (case v of JStr s \<Rightarrow> s \<noteq> [] | _ \<Rightarrow> False)"

definition mockRecordShape :: "area \<Rightarrow> bool" where
  "mockRecordShape r =
     (valid_type (type r)
      \<and> (type r = JStr ''ward'' \<longrightarrow> nonEmptyString (county r) \<and> nonEmptyString (constituency r))
      \<and> (type r = JStr ''constituency'' \<longrightarrow>
            nonEmptyString (county r) \<and> constituency r = JUndefined)
      \<and> (type r = JStr ''county'' \<longrightarrow>
            nonEmptyString (county r) \<and> county r = name r \<and> constituency r = JUndefined))"

definition assembledRecordShape :: "area \<Rightarrow> bool" where
  "assembledRecordShape r =
     (valid_type (type r)
      \<and> (type r = JStr ''constituency'' \<longrightarrow> constituency r = JUndefined)
      \<and> (type r = JStr ''county'' \<longrightarrow> county r = name r \<and> constituency r = JUndefined))"

text \<open>A network whose answer to the county list request has a number where the list should be.\<close>

definition net_malformed :: network where
  "net_malformed = (\<lambda>n url opts timeout. jsonResponse (JObj [(''counties'', JNum 5)]))"

text \<open>The worlds after the first and after the second request on \<open>net_partial\<close>.\<close>

definition wp1 :: world where
  "wp1 = \<lparr> clock = 1, trace = [Request ''https://kenyaareadata.vercel.app/api/counties''] \<rparr>"

definition wp2 :: world where
  "wp2 = \<lparr> clock = 2,
           trace = [Request ''https://kenyaareadata.vercel.app/api/counties'',
                    Request ''https://kenyaareadata.vercel.app/api/areas?county=Lamu''] \<rparr>"

text \<open>
  The match policy in the words of the specification, for records whose name is a
  string and whose county is a string or a value that counts as false (absent, \<open>null\<close>).
  A criterion is active when it is not empty; the county of a record is present when it
  is a non-empty string.
\<close>

definition isString :: "jsval \<Rightarrow> bool" where
  "isString v = (case v of JStr s \<Rightarrow> True | _ \<Rightarrow> False)"

definition stringOf :: "jsval \<Rightarrow> string" where
  "stringOf v = (case v of JStr s \<Rightarrow> s | _ \<Rightarrow> [])"

definition wellFormed :: "area \<Rightarrow> bool" where
  "wellFormed item =
     (isString (name item) \<and> (isString (county item) \<or> \<not> truthy (county item)))"

definition searchCriterion :: "(string \<Rightarrow> string) \<Rightarrow> string \<Rightarrow> area \<Rightarrow> bool" where
  "searchCriterion toLowerCase searchTerm item =
     (str_includes (toLowerCase (stringOf (name item))) (toLowerCase searchTerm)
      \<or> (stringOf (county item) \<noteq> []
          \<and> str_includes (toLowerCase (stringOf (county item))) (toLowerCase searchTerm)))"

definition survives :: "(string \<Rightarrow> string) \<Rightarrow> string \<Rightarrow> string \<Rightarrow> string \<Rightarrow> area \<Rightarrow> bool" where
  "survives toLowerCase searchTerm selectedCounty selectedType item =
     ((searchTerm = [] \<or> searchCriterion toLowerCase searchTerm item)
      \<and> (selectedCounty = [] \<or> county item = JStr selectedCounty)
      \<and> (selectedType = [] \<or> type item = JStr selectedType))"

text \<open>
  A collation that orders a list of names strictly: it is zero on equal names only,
  its sign turns over when the arguments are exchanged, and it is transitive.
\<close>

definition strictOrderOn :: "(string \<Rightarrow> string \<Rightarrow> int) \<Rightarrow> string list \<Rightarrow> bool" where
  "strictOrderOn lc ns =
     ((\<forall>s\<in>set ns. \<forall>t\<in>set ns. (lc s t = 0) = (s = t))
      \<and> (\<forall>s\<in>set ns. \<forall>t\<in>set ns. (lc s t < 0) = (0 < lc t s))
      \<and> (\<forall>s\<in>set ns. \<forall>t\<in>set ns. \<forall>u\<in>set ns. lc s t < 0 \<and> lc t u < 0 \<longrightarrow> lc s u < 0))"

text \<open>A sample collation: by the byte values, a proper prefix first.\<close>

fun codeUnitCompare :: "string \<Rightarrow> string \<Rightarrow> int" where
  "codeUnitCompare [] [] = 0"
| "codeUnitCompare [] (y # ys) = - 1"
| "codeUnitCompare (x # xs) [] = 1"
| "codeUnitCompare (x # xs) (y # ys) =
     (if (of_char x :: nat) < of_char y then - 1
      else if (of_char y :: nat) < of_char x then 1
      else codeUnitCompare xs ys)"

text \<open>The records of the sort tests.\<close>

definition sortSample :: "area list" where
  "sortSample =
     [ \<lparr> name = JStr ''Charlie'', code = JUndefined, type = JStr ''ward'',
         county = JUndefined, constituency = JUndefined \<rparr>,
       \<lparr> name = JStr ''Alpha'', code = JUndefined, type = JStr ''county'',
         county = JUndefined, constituency = JUndefined \<rparr>,
       \<lparr> name = JStr ''Bravo'', code = JUndefined, type = JStr ''constituency'',
         county = JUndefined, constituency = JUndefined \<rparr> ]"

text \<open>
  A sample collation that, like the collation of a locale, takes canonically equivalent
  strings for equal: \<open>e\<close> followed by the combining acute accent (the bytes CC 81)
  counts as the single letter e-acute (the bytes C3 A9). Two names that differ only so
  are distinct strings that the collation ties.
\<close>

fun precompose :: "string \<Rightarrow> string" where
  "precompose (a # b # c # s) =
     (if a = CHR ''e'' \<and> b = CHR 0xCC \<and> c = CHR 0x81 then CHR 0xC3 # CHR 0xA9 # precompose s
      else a # precompose (b # c # s))"
| "precompose s = s"

definition canonicalCompare :: "string \<Rightarrow> string \<Rightarrow> int" where
  "canonicalCompare s t = codeUnitCompare (precompose s) (precompose t)"

definition tiedSample :: "area list" where
  "tiedSample =
     [ \<lparr> name = JStr (''Caf'' @ [CHR 0xC3, CHR 0xA9]), code = JUndefined, type = JStr ''ward'',
         county = JUndefined, constituency = JUndefined \<rparr>,
       \<lparr> name = JStr (''Cafe'' @ [CHR 0xCC, CHR 0x81]), code = JUndefined, type = JStr ''ward'',
         county = JUndefined, constituency = JUndefined \<rparr> ]"

text \<open>
  Insertion sort with a comparator that cannot throw: what \<open>arraySort\<close> computes when
  the comparator does not throw on the elements at hand.
\<close>

fun insertP :: "('a \<Rightarrow> 'a \<Rightarrow> int) \<Rightarrow> 'a \<Rightarrow> 'a list \<Rightarrow> 'a list" where
  "insertP f x [] = [x]"
| "insertP f x (y # ys) = (if f x y \<le> 0 then x # y # ys else y # insertP f x ys)"

fun sortP :: "('a \<Rightarrow> 'a \<Rightarrow> int) \<Rightarrow> 'a list \<Rightarrow> 'a list" where
  "sortP f [] = []"
| "sortP f (x # xs) = insertP f x (sortP f xs)"

text \<open>A store that holds the sample records as its only array.\<close>

definition sampleHeap :: heap where
  "sampleHeap = [sortSample]"


section \<open>Statistics: the counts partition the collection\<close>

text \<open>The recursive equations of the loops are unfolded by hand, not by the simplifier.\<close>

declare string_of_nat.simps [simp del]

declare fetchLoop.simps [simp del]


lemma three_way_count:
  "\<forall>r\<in>set R. valid_type (type r) \<Longrightarrow>
     length (filter (\<lambda>item. type item = JStr ''county'') R)
     + length (filter (\<lambda>item. type item = JStr ''constituency'') R)
     + length (filter (\<lambda>item. type item = JStr ''ward'') R) = length R"
  by (induction R) (auto simp: valid_type_def)

text \<open>
  Claim C4. For a collection \<open>R\<close> of area records, \<open>calculateStatistics R\<close> has
  \<open>total\<close> equal to the length of \<open>R\<close>; \<open>counties\<close>, \<open>constituencies\<close> and \<open>wards\<close> are
  the numbers of records whose type is \<open>county\<close>, \<open>constituency\<close> and \<open>ward\<close>; when every
  record has one of these three types, as the data model requires, the three counts add
  up to \<open>total\<close>; the empty collection gives four zeros. The function is total and
  touches no state.
\<close>

theorem calculateStatistics_partition:
  "total (calculateStatistics R) = length R
   \<and> counties (calculateStatistics R) = length (filter (\<lambda>r. type r = JStr ''county'') R)
   \<and> constituencies (calculateStatistics R)
       = length (filter (\<lambda>r. type r = JStr ''constituency'') R)
   \<and> wards (calculateStatistics R) = length (filter (\<lambda>r. type r = JStr ''ward'') R)
   \<and> ((\<forall>r\<in>set R. valid_type (type r)) \<longrightarrow>
        counties (calculateStatistics R) + constituencies (calculateStatistics R)
          + wards (calculateStatistics R) = total (calculateStatistics R))
   \<and> calculateStatistics [] = \<lparr> counties = 0, constituencies = 0, wards = 0, total = 0 \<rparr>"
  using three_way_count [of R] by (simp add: calculateStatistics_def)

theorem calculateStatistics_partition_witness:
  "list_all (\<lambda>r. valid_type (type r)) scenarioR
   \<and> calculateStatistics scenarioR
       = \<lparr> counties = 1, constituencies = 1, wards = 2, total = 4 \<rparr>
   \<and> counties (calculateStatistics scenarioR) + constituencies (calculateStatistics scenarioR)
       + wards (calculateStatistics scenarioR) = total (calculateStatistics scenarioR)"
  using calculateStatistics_partition [of scenarioR]
  by (simp add: calculateStatistics_def scenarioR_def valid_type_def)

section \<open>The fetch-resilience layer: attempts, back-off and terminal errors\<close>

lemma requests_attempts_trace: "length (requests (attempts_trace url a k)) = Suc k"
  by (induction k arbitrary: a) (simp_all add: requests_def)

lemma delays_attempts_trace: "delays (attempts_trace url a k) = map backoff [a ..< a + k]"
proof (induction k arbitrary: a)
  case 0
  show ?case by (simp add: delays_def)
next
  case (Suc k)
  have "delays (attempts_trace url a (Suc k)) = backoff a # delays (attempts_trace url (Suc a) k)"
    by (simp add: delays_def)
  also have "\<dots> = backoff a # map backoff [Suc a ..< Suc a + k]"
    by (simp only: Suc.IH)
  also have "\<dots> = map backoff [a ..< a + Suc k]"
    by (subst (2) upt_rec) simp
  finally show ?case .
qed

lemma fetchLoop_stops:
  "int (a + k) \<le> retries \<Longrightarrow>
   (\<forall>i<k. \<exists>e. attempt_body (net (clock w + i) url opts timeout) = Inl e \<and> isNetworkError e) \<Longrightarrow>
   (case attempt_body (net (clock w + k) url opts timeout) of
      Inr v \<Rightarrow> True | Inl e \<Rightarrow> \<not> isNetworkError e \<or> int (a + k) = retries) \<Longrightarrow>
   fetchLoop net url opts timeout retries a w
     = (attempt_body (net (clock w + k) url opts timeout),
        \<lparr> clock = clock w + k + 1, trace = trace w @ attempts_trace url a k \<rparr>)"
proof (induction k arbitrary: a w)
  case 0
  then show ?case
    by (subst fetchLoop.simps) (auto simp: Let_def split: sum.splits)
next
  case (Suc k)
  from Suc.prems(2) obtain e where e: "attempt_body (net (clock w) url opts timeout) = Inl e"
    "isNetworkError e"
    by force
  let ?w = "w\<lparr> clock := Suc (clock w), trace := trace w @ [Request url, Sleep (backoff a)] \<rparr>"
  have step: "fetchLoop net url opts timeout retries a w
      = fetchLoop net url opts timeout retries (Suc a) ?w"
    using e Suc.prems(1) by (subst fetchLoop.simps) (simp add: Let_def)
  have "fetchLoop net url opts timeout retries (Suc a) ?w
      = (attempt_body (net (clock ?w + k) url opts timeout),
         \<lparr> clock = clock ?w + k + 1, trace = trace ?w @ attempts_trace url (Suc a) k \<rparr>)"
  proof (rule Suc.IH)
    show "int (Suc a + k) \<le> retries" using Suc.prems(1) by simp
    show "\<forall>i<k. \<exists>e. attempt_body (net (clock ?w + i) url opts timeout) = Inl e \<and> isNetworkError e"
      using Suc.prems(2) by (auto dest: spec [where x = "Suc _"])
    show "case attempt_body (net (clock ?w + k) url opts timeout) of
            Inr v \<Rightarrow> True | Inl e \<Rightarrow> \<not> isNetworkError e \<or> int (Suc a + k) = retries"
      using Suc.prems(3) by (auto split: sum.splits)
  qed
  with step show ?case by simp
qed

lemma fetchLoop_shape:
  "int a \<le> retries \<Longrightarrow>
   \<exists>k. int (a + k) \<le> retries
      \<and> snd (fetchLoop net url opts timeout retries a w)
          = \<lparr> clock = clock w + k + 1, trace = trace w @ attempts_trace url a k \<rparr>"
proof (induction net url opts timeout retries a w rule: fetchLoop.induct)
  case (1 net url opts timeout retries attempt w)
  let ?w1 = "w\<lparr> clock := Suc (clock w), trace := trace w @ [Request url] \<rparr>"
  show ?case
  proof (cases "attempt_body (net (clock w) url opts timeout)")
    case (Inr v)
    then have "snd (fetchLoop net url opts timeout retries attempt w)
        = \<lparr> clock = clock w + 0 + 1, trace = trace w @ attempts_trace url attempt 0 \<rparr>"
      using "1.prems" by (subst fetchLoop.simps) (simp add: Let_def)
    with "1.prems" show ?thesis by (intro exI [of _ 0]) simp
  next
    case (Inl err)
    show ?thesis
    proof (cases "int attempt < retries \<and> isNetworkError err")
      case False
      then have "snd (fetchLoop net url opts timeout retries attempt w)
          = \<lparr> clock = clock w + 0 + 1, trace = trace w @ attempts_trace url attempt 0 \<rparr>"
        using "1.prems" Inl by (subst fetchLoop.simps) (auto simp: Let_def)
      with "1.prems" show ?thesis by (intro exI [of _ 0]) simp
    next
      case True
      let ?w2 = "?w1\<lparr> trace := trace ?w1 @ [Sleep (backoff attempt)] \<rparr>"
      have step: "fetchLoop net url opts timeout retries attempt w
          = fetchLoop net url opts timeout retries (Suc attempt) ?w2"
        using True Inl "1.prems" by (subst fetchLoop.simps) (simp add: Let_def)
      from True have "int (Suc attempt) \<le> retries" by simp
      from "1.IH" [OF "1.prems" refl Inl True this]
      obtain k where k: "int (Suc attempt + k) \<le> retries"
        "snd (fetchLoop net url opts timeout retries (Suc attempt) ?w2)
           = \<lparr> clock = clock ?w2 + k + 1, trace = trace ?w2 @ attempts_trace url (Suc attempt) k \<rparr>"
        by blast
      show ?thesis
        using k step by (intro exI [of _ "Suc k"]) simp
    qed
  qed
qed


text \<open>
  Claim C1. For a retry count \<open>retries\<close> (not negative), \<open>_fetchJSON\<close> makes \<open>k + 1\<close>
  attempts for some \<open>k \<le> retries\<close>: its trace is a request first, with no delay before
  it, then for each further attempt a delay followed by a request, and the delays are
  \<open>min (1000 * 2 ^ i) 8000\<close> for \<open>i = 0, \<dots>, k - 1\<close>, the index of the attempt that
  failed. When every attempt fails with an error that is retried (the abort of the
  timeout or a transport error), the call makes exactly \<open>retries + 1\<close> attempts and
  fails with the error of the last one. With \<open>retries = 2\<close> and three timeouts the call
  fails with the abort error after the trace request, 1000 ms, request, 2000 ms, request.
\<close>

theorem fetchJSON_retry_schedule:
  "0 \<le> retries \<longrightarrow>
     (\<exists>k \<le> nat retries.
        snd (fetchJSON net url opts timeout retries w)
          = \<lparr> clock = clock w + k + 1, trace = trace w @ attempts_trace url 0 k \<rparr>
        \<and> length (requests (attempts_trace url 0 k)) = k + 1
        \<and> delays (attempts_trace url 0 k) = map (\<lambda>i. min (1000 * 2 ^ i) 8000) [0 ..< k]
        \<and> hd (attempts_trace url 0 k) = Request url)
     \<and> ((\<forall>i \<le> nat retries. \<exists>e. attempt_body (net (clock w + i) url opts timeout) = Inl e
                                \<and> isNetworkError e) \<longrightarrow>
          (\<exists>e. attempt_body (net (clock w + nat retries) url opts timeout) = Inl e
              \<and> fetchJSON net url opts timeout retries w
                  = (Inl e, \<lparr> clock = clock w + nat retries + 1,
                              trace = trace w @ attempts_trace url 0 (nat retries) \<rparr>)))
     \<and> (retries = 2 \<and> (\<forall>i \<le> 2. net (clock w + i) url opts timeout = Rejected AbortError) \<longrightarrow>
          fetchJSON net url opts timeout retries w
            = (Inl AbortError,
               \<lparr> clock = clock w + 3,
                 trace = trace w @ [Request url, Sleep 1000, Request url, Sleep 2000, Request url] \<rparr>))"
proof (intro impI conjI)
  assume r: "0 \<le> retries"
  from fetchLoop_shape [of 0 retries net url opts timeout w] r
  obtain k where k: "int k \<le> retries"
    "snd (fetchLoop net url opts timeout retries 0 w)
       = \<lparr> clock = clock w + k + 1, trace = trace w @ attempts_trace url 0 k \<rparr>"
    by auto
  have "hd (attempts_trace url 0 k) = Request url"
    by (cases k) simp_all
  moreover have "delays (attempts_trace url 0 k) = map (\<lambda>i. min (1000 * 2 ^ i) 8000) [0 ..< k]"
    using delays_attempts_trace [of url 0 k] by (simp add: backoff_def [abs_def])
  ultimately show "\<exists>k \<le> nat retries.
        snd (fetchJSON net url opts timeout retries w)
          = \<lparr> clock = clock w + k + 1, trace = trace w @ attempts_trace url 0 k \<rparr>
        \<and> length (requests (attempts_trace url 0 k)) = k + 1
        \<and> delays (attempts_trace url 0 k) = map (\<lambda>i. min (1000 * 2 ^ i) 8000) [0 ..< k]
        \<and> hd (attempts_trace url 0 k) = Request url"
    using k by (intro exI [of _ k]) (simp add: fetchJSON_def requests_attempts_trace)
next
  assume r: "0 \<le> retries"
    and fail: "\<forall>i \<le> nat retries. \<exists>e. attempt_body (net (clock w + i) url opts timeout) = Inl e
                                \<and> isNetworkError e"
  from fail obtain e where e: "attempt_body (net (clock w + nat retries) url opts timeout) = Inl e"
    by blast
  have "fetchLoop net url opts timeout retries 0 w
      = (attempt_body (net (clock w + nat retries) url opts timeout),
         \<lparr> clock = clock w + nat retries + 1,
           trace = trace w @ attempts_trace url 0 (nat retries) \<rparr>)"
    using r fail e by (intro fetchLoop_stops) auto
  with e show "\<exists>e. attempt_body (net (clock w + nat retries) url opts timeout) = Inl e
              \<and> fetchJSON net url opts timeout retries w
                  = (Inl e, \<lparr> clock = clock w + nat retries + 1,
                              trace = trace w @ attempts_trace url 0 (nat retries) \<rparr>)"
    by (simp add: fetchJSON_def)
next
  assume r: "0 \<le> retries"
    and s: "retries = 2 \<and> (\<forall>i \<le> 2. net (clock w + i) url opts timeout = Rejected AbortError)"
  have body: "attempt_body (net (clock w + 2) url opts timeout) = Inl AbortError"
    using s by (auto simp: attempt_body_def)
  have "fetchLoop net url opts timeout 2 0 w
      = (attempt_body (net (clock w + 2) url opts timeout),
         \<lparr> clock = clock w + 2 + 1, trace = trace w @ attempts_trace url 0 2 \<rparr>)"
    using s by (intro fetchLoop_stops) (auto simp: attempt_body_def isNetworkError_def)
  then have "fetchLoop net url opts timeout 2 0 w
      = (Inl AbortError, \<lparr> clock = clock w + 2 + 1, trace = trace w @ attempts_trace url 0 2 \<rparr>)"
    by (simp only: body)
  moreover have "attempts_trace url 0 2 = [Request url, Sleep 1000, Request url, Sleep 2000, Request url]"
    by (simp add: numeral_2_eq_2 backoff_def)
  ultimately show "fetchJSON net url opts timeout retries w
            = (Inl AbortError,
               \<lparr> clock = clock w + 3,
                 trace = trace w @ [Request url, Sleep 1000, Request url, Sleep 2000, Request url] \<rparr>)"
    using s by (simp add: fetchJSON_def)
qed

theorem fetchJSON_retry_schedule_witness:
  "fetchJSON net_timeout ''/api/counties'' [] 8000 2 w0
     = (Inl AbortError,
        \<lparr> clock = 3,
          trace = [Request ''/api/counties'', Sleep 1000, Request ''/api/counties'', Sleep 2000,
                   Request ''/api/counties''] \<rparr>)
   \<and> length (requests (trace (snd (fetchJSON net_timeout ''/api/counties'' [] 8000 2 w0)))) = 3
   \<and> delays (trace (snd (fetchJSON net_timeout ''/api/counties'' [] 8000 2 w0))) = [1000, 2000]"
  using fetchJSON_retry_schedule [of 2 net_timeout "''/api/counties''" "[]" 8000 w0]
  by (simp add: net_timeout_def w0_def requests_def delays_def)

text \<open>
  Claim C2. When an attempt of \<open>_fetchJSON\<close> gets a response whose status is not a
  success, after any number \<open>k\<close> of attempts that failed and were retried, the call
  fails at once with the error that carries that status: it has made \<open>k + 1\<close> attempts
  and makes no more, whatever is left of the retries. A 404 on the first attempt ends the
  call after that one request, with no delay.
\<close>

theorem fetchJSON_status_not_retried:
  "(int k \<le> retries
      \<and> (\<forall>i<k. \<exists>e. attempt_body (net (clock w + i) url opts timeout) = Inl e \<and> isNetworkError e)
      \<and> net (clock w + k) url opts timeout = Resolved res \<and> \<not> ok res \<longrightarrow>
      fetchJSON net url opts timeout retries w
        = (Inl (StatusError (status res) (statusText res)),
           \<lparr> clock = clock w + k + 1, trace = trace w @ attempts_trace url 0 k \<rparr>)
      \<and> length (requests (attempts_trace url 0 k)) = k + 1)
   \<and> (0 \<le> retries \<and> net (clock w) url opts timeout = Resolved res \<and> status res = 404 \<longrightarrow>
      fetchJSON net url opts timeout retries w
        = (Inl (StatusError 404 (statusText res)),
           \<lparr> clock = clock w + 1, trace = trace w @ [Request url] \<rparr>))"
proof (intro conjI impI)
  assume a: "int k \<le> retries
      \<and> (\<forall>i<k. \<exists>e. attempt_body (net (clock w + i) url opts timeout) = Inl e \<and> isNetworkError e)
      \<and> net (clock w + k) url opts timeout = Resolved res \<and> \<not> ok res"
  then have body: "attempt_body (net (clock w + k) url opts timeout)
      = Inl (StatusError (status res) (statusText res))"
    by (simp add: attempt_body_def)
  have "fetchLoop net url opts timeout retries 0 w
      = (attempt_body (net (clock w + k) url opts timeout),
         \<lparr> clock = clock w + k + 1, trace = trace w @ attempts_trace url 0 k \<rparr>)"
    using a body by (intro fetchLoop_stops) (auto simp: isNetworkError_def)
  with body show "fetchJSON net url opts timeout retries w
        = (Inl (StatusError (status res) (statusText res)),
           \<lparr> clock = clock w + k + 1, trace = trace w @ attempts_trace url 0 k \<rparr>)"
    by (simp add: fetchJSON_def)
  show "length (requests (attempts_trace url 0 k)) = k + 1"
    by (simp add: requests_attempts_trace)
next
  assume a: "0 \<le> retries \<and> net (clock w) url opts timeout = Resolved res \<and> status res = 404"
  then have body: "attempt_body (net (clock w + 0) url opts timeout)
      = Inl (StatusError 404 (statusText res))"
    by (simp add: attempt_body_def ok_def)
  have "fetchLoop net url opts timeout retries 0 w
      = (attempt_body (net (clock w + 0) url opts timeout),
         \<lparr> clock = clock w + 0 + 1, trace = trace w @ attempts_trace url 0 0 \<rparr>)"
    using a body by (intro fetchLoop_stops) (auto simp: isNetworkError_def)
  with body show "fetchJSON net url opts timeout retries w
        = (Inl (StatusError 404 (statusText res)),
           \<lparr> clock = clock w + 1, trace = trace w @ [Request url] \<rparr>)"
    by (simp add: fetchJSON_def)
qed

theorem fetchJSON_status_not_retried_witness:
  "fetchJSON net_404 ''/api/counties'' [] 8000 2 w0
     = (Inl (StatusError 404 ''Not Found''), \<lparr> clock = 1, trace = [Request ''/api/counties''] \<rparr>)"
  using fetchJSON_status_not_retried [where k = 0 and retries = 2 and w = w0 and net = net_404
      and url = "''/api/counties''" and opts = "[]" and timeout = 8000 and res =
      "\<lparr> status = 404, statusText = ''Not Found'', contentType = Some ''text/html'',
         jsonBody = Inl (OtherError ''SyntaxError''), textBody = Inr ''not found'' \<rparr>"]
  by (simp add: net_404_def w0_def ok_def)

section \<open>The area repository: mock mode\<close>

text \<open>
  Claim C10. The constructor sets \<open>useMockData\<close>. With \<open>useMockData\<close> set,
  \<open>fetchAllAreas\<close> returns the built-in data set and leaves the service and the
  world as they were: no request is made and the cache is not written. The result is
  the same whatever the cache holds, so the cache is not read, and it is the same after
  \<open>clearCache\<close>.
\<close>

theorem fetchAllAreas_mock_mode:
  "useMockData newDataService
   \<and> (useMockData ds \<longrightarrow>
        fetchAllAreas ds net w = (Inr getComprehensiveMockData, ds, w)
        \<and> fetchAllAreas (ds\<lparr> cache := c \<rparr>) net w
            = (Inr getComprehensiveMockData, ds\<lparr> cache := c \<rparr>, w)
        \<and> fst (fetchAllAreas (clearCache ds) net w) = fst (fetchAllAreas ds net w)
        \<and> fst (fetchAllAreas (fst (snd (fetchAllAreas (clearCache ds) net w))) net w)
            = fst (fetchAllAreas ds net w))"
  by (simp add: newDataService_def fetchAllAreas_def fetchAllAreas_try_def clearCache_def)

theorem fetchAllAreas_mock_mode_witness:
  "fetchAllAreas newDataService net_down w0 = (Inr getComprehensiveMockData, newDataService, w0)
   \<and> fetchAllAreas (newDataService\<lparr> cache := [''allAreas'' \<mapsto> []] \<rparr>) net_down w0
       = (Inr getComprehensiveMockData, newDataService\<lparr> cache := [''allAreas'' \<mapsto> []] \<rparr>, w0)
   \<and> fst (fetchAllAreas (clearCache newDataService) net_down w0) = Inr getComprehensiveMockData"
  using fetchAllAreas_mock_mode [of newDataService net_down w0 "[''allAreas'' \<mapsto> []]"]
  by (simp add: newDataService_def)

section \<open>The area repository: errors on the live path\<close>

lemma fetchAllAreas_total: "\<exists>areas. fst (fetchAllAreas ds net w) = Inr areas"
  by (simp add: fetchAllAreas_def split: prod.splits sum.splits)

lemma fetchAllAreas_catch:
  "fst (fetchAllAreas_try ds net w) = Inl e \<Longrightarrow>
   fst (fetchAllAreas ds net w) = Inr getComprehensiveMockData"
  by (auto simp: fetchAllAreas_def split: prod.splits sum.splits)

lemma fetchCounties_catch:
  "fst (fetchCounties_try ds net w) = Inl e \<Longrightarrow> fst (fetchCounties ds net w) = Inr getMockCounties"
  by (auto simp: fetchCounties_def split: prod.splits sum.splits)

lemma fetchCounties_total: "\<exists>cl. fst (fetchCounties ds net w) = Inr cl"
  by (simp add: fetchCounties_def split: prod.splits sum.splits)

lemma fetchAreasByCounty_catch:
  "fetchAreasByCounty_try ds net n w = (Inl e, w1) \<Longrightarrow> fetchAreasByCounty ds net n w = (Inr [], w1)"
  by (simp add: fetchAreasByCounty_def)

lemma areasLoop_append:
  "areasLoop ds net (xs @ ys) w =
     (case areasLoop ds net xs w of
        (a, w1) \<Rightarrow> (case areasLoop ds net ys w1 of (b, w2) \<Rightarrow> (a @ b, w2)))"
  by (induction xs arbitrary: w) (simp_all split: prod.splits)

lemma areasLoop_skips_failure:
  assumes "areasLoop ds net pre w = (a, w1)"
    and "getProp c ''name'' = Inr n"
    and "fetchAreasByCounty_try ds net n w1 = (Inl e, w2)"
  shows "fst (areasLoop ds net (pre @ c # post) w) = a @ fst (areasLoop ds net post w2)"
  using assms
  by (simp add: areasLoop_append countyAreas_def fetchAreasByCounty_catch split: prod.splits)

lemma fetchAllAreas_live:
  assumes "\<not> useMockData ds" and "cache ds ''allAreas'' = None"
    and "fetchCounties ds net w = (Inr (JArr cs), w1)"
    and "concatMapE countyRow cs = Inr rows"
  shows "fst (fetchAllAreas ds net w) = Inr (rows @ fst (areasLoop ds net cs w1))"
  using assms
  by (simp add: fetchAllAreas_def fetchAllAreas_try_def forEachE_def split: prod.splits)

lemma fetchJSON_settles:
  "0 \<le> retries \<Longrightarrow> attempt_body (net (clock w) url opts timeout) = r \<Longrightarrow>
   (case r of Inr v \<Rightarrow> True | Inl e \<Rightarrow> \<not> isNetworkError e) \<Longrightarrow>
   fetchJSON net url opts timeout retries w
     = (r, \<lparr> clock = clock w + 1, trace = trace w @ [Request url] \<rparr>)"
  using fetchLoop_stops [of 0 0 retries net w url opts timeout]
  by (auto simp: fetchJSON_def split: sum.splits)

lemma fetchJSON_net_down:
  "fetchJSON net_down url opts timeout 2 w
     = (Inl TypeError, \<lparr> clock = clock w + 3, trace = trace w @ attempts_trace url 0 2 \<rparr>)"
  using fetchLoop_stops [of 0 2 2 net_down w url opts timeout]
  by (simp add: fetchJSON_def net_down_def attempt_body_def isNetworkError_def)

lemma fetchCounties_net_down: "fst (fetchCounties liveService net_down w) = Inr getMockCounties"
  by (simp add: fetchCounties_def fetchCounties_try_def liveService_def newDataService_def
      fetchJSON_net_down bindE_def)

lemma countyAreas_net_down: "fst (countyAreas liveService net_down c w) = []"
  by (simp add: countyAreas_def fetchAreasByCounty_def fetchAreasByCounty_try_def
      liveService_def newDataService_def fetchJSON_net_down bindE_def split: sum.splits)

lemma areasLoop_net_down: "fst (areasLoop liveService net_down cs w) = []"
proof (induction cs arbitrary: w)
  case Nil
  show ?case by simp
next
  case (Cons c cs)
  obtain rows w1 where c: "countyAreas liveService net_down c w = (rows, w1)"
    by (cases "countyAreas liveService net_down c w")
  with countyAreas_net_down [of c w] have "rows = []" by simp
  with c Cons.IH [of w1] show ?case by (simp split: prod.splits)
qed

lemma builtin_county_rows: "forEachE getMockCounties countyRow = Inr fiveCountyRows"
  by (simp add: getMockCounties_def forEachE_def countyRow_def bindE_def fiveCountyRows_def
      builtinCountyRow_def)

lemma fetchAllAreas_net_down: "fst (fetchAllAreas liveService net_down w0) = Inr fiveCountyRows"
proof -
  obtain cl w1 where f: "fetchCounties liveService net_down w0 = (cl, w1)"
    by (cases "fetchCounties liveService net_down w0")
  with fetchCounties_net_down [of w0] have cl: "cl = Inr getMockCounties" by simp
  obtain rest w2 where a: "areasLoop liveService net_down
      (case getMockCounties of JArr cs \<Rightarrow> cs | _ \<Rightarrow> []) w1 = (rest, w2)"
    by (cases "areasLoop liveService net_down (case getMockCounties of JArr cs \<Rightarrow> cs | _ \<Rightarrow> []) w1")
  with areasLoop_net_down [of "case getMockCounties of JArr cs \<Rightarrow> cs | _ \<Rightarrow> []" w1]
  have "rest = []" by simp
  with f cl a builtin_county_rows show ?thesis
    by (simp add: fetchAllAreas_def fetchAllAreas_try_def liveService_def newDataService_def)
qed

lemma mock_head:
  "getComprehensiveMockData \<noteq> [] \<and> hd getComprehensiveMockData = mockCountyRow 1 ''Nairobi''"
  unfolding getComprehensiveMockData_def countyData_def
  by (simp only: mockRows.simps list.sel list.distinct append_Cons not_False_eq_True simp_thms)

lemma mock_head_fields:
  "type (mockCountyRow 1 ''Nairobi'') = JStr ''county''
   \<and> county (mockCountyRow 1 ''Nairobi'') = JStr ''Nairobi''
   \<and> code (mockCountyRow 1 ''Nairobi'') = JStr ''001''"
  by code_simp


lemma fetchCounties_absorbs:
  "\<not> useMockData ds \<Longrightarrow> fst (fetchJSON net (apiBase ds @ ''/counties'') [] 8000 2 w) = Inl e \<Longrightarrow>
   fst (fetchCounties ds net w) = Inr getMockCounties"
  by (rule fetchCounties_catch [where e = e])
     (auto simp: fetchCounties_try_def bindE_def split: prod.splits)

lemma fetchAreasByCounty_try_fails:
  "\<not> useMockData ds \<Longrightarrow>
   fetchJSON net (apiBase ds @ ''/areas?county='' @ encodeURIComponent (toStringJS n)) [] 8000 2 w
     = (Inl e, w1) \<Longrightarrow>
   fetchAreasByCounty_try ds net n w = (Inl e, w1)"
  by (simp add: fetchAreasByCounty_try_def bindE_def)

text \<open>
  Claim C3, as amended. \<open>fetchAllAreas\<close> never fails. An error that reaches its
  handler is answered with the built-in data set. A failure of the county list request
  does not reach it: \<open>fetchCounties\<close> answers it with the built-in county list, and in
  live mode without a cached result the answer of \<open>fetchAllAreas\<close> is then the county
  rows of the list that \<open>fetchCounties\<close> gave, followed by the rows of the per-county
  loop. In that loop a county whose request fails adds no rows, and the rows of the
  counties before and after it are still there.
\<close>

theorem fetchAllAreas_never_fails:
  "(\<exists>areas. fst (fetchAllAreas ds net w) = Inr areas)
   \<and> (fst (fetchAllAreas_try ds net w) = Inl e \<longrightarrow>
        fst (fetchAllAreas ds net w) = Inr getComprehensiveMockData)
   \<and> (\<not> useMockData ds
        \<and> fst (fetchJSON net (apiBase ds @ ''/counties'') [] 8000 2 w) = Inl e \<longrightarrow>
        fst (fetchCounties ds net w) = Inr getMockCounties)
   \<and> (\<not> useMockData ds \<and> cache ds ''allAreas'' = None
        \<and> fetchCounties ds net w = (Inr (JArr cs), w1) \<and> concatMapE countyRow cs = Inr rows \<longrightarrow>
        fst (fetchAllAreas ds net w) = Inr (rows @ fst (areasLoop ds net cs w1)))
   \<and> (\<not> useMockData ds \<and> areasLoop ds net pre w1 = (a, w2) \<and> getProp c ''name'' = Inr n
        \<and> fetchJSON net (apiBase ds @ ''/areas?county='' @ encodeURIComponent (toStringJS n))
              [] 8000 2 w2 = (Inl e', w3) \<longrightarrow>
        fst (areasLoop ds net (pre @ c # post) w1) = a @ fst (areasLoop ds net post w3))"
proof (intro conjI impI)
  show "\<exists>areas. fst (fetchAllAreas ds net w) = Inr areas"
    by (rule fetchAllAreas_total)
  show "fst (fetchAllAreas ds net w) = Inr getComprehensiveMockData"
    if "fst (fetchAllAreas_try ds net w) = Inl e"
    using that by (rule fetchAllAreas_catch)
  show "fst (fetchCounties ds net w) = Inr getMockCounties"
    if "\<not> useMockData ds \<and> fst (fetchJSON net (apiBase ds @ ''/counties'') [] 8000 2 w) = Inl e"
    using that by (intro fetchCounties_absorbs [where e = e]) simp_all
  show "fst (fetchAllAreas ds net w) = Inr (rows @ fst (areasLoop ds net cs w1))"
    if "\<not> useMockData ds \<and> cache ds ''allAreas'' = None
        \<and> fetchCounties ds net w = (Inr (JArr cs), w1) \<and> concatMapE countyRow cs = Inr rows"
    using that by (intro fetchAllAreas_live) simp_all
  show "fst (areasLoop ds net (pre @ c # post) w1) = a @ fst (areasLoop ds net post w3)"
    if h: "\<not> useMockData ds \<and> areasLoop ds net pre w1 = (a, w2) \<and> getProp c ''name'' = Inr n
        \<and> fetchJSON net (apiBase ds @ ''/areas?county='' @ encodeURIComponent (toStringJS n))
              [] 8000 2 w2 = (Inl e', w3)"
  proof -
    from h have "fetchAreasByCounty_try ds net n w2 = (Inl e', w3)"
      by (intro fetchAreasByCounty_try_fails) simp_all
    with h show ?thesis
      by (intro areasLoop_skips_failure [where e = e' and n = n and ?w1.0 = w2]) simp_all
  qed
qed

lemma partial_counties:
  "fetchCounties liveService net_partial w0 = (Inr (JArr twoCounties), wp1)"
  by code_simp

lemma partial_county_rows:
  "concatMapE countyRow twoCounties
     = Inr [builtinCountyRow ''Lamu'' ''005'', builtinCountyRow ''Isiolo'' ''011'']"
  by code_simp

lemma partial_lamu_fails:
  "fetchJSON net_partial
     (apiBase liveService @ ''/areas?county='' @ encodeURIComponent (toStringJS (JStr ''Lamu'')))
     [] 8000 2 wp1
   = (Inl (StatusError 500 ''Internal Server Error''), wp2)"
  by code_simp

lemma partial_isiolo_rows:
  "fst (areasLoop liveService net_partial [twoCounties ! 1] wp2) = drop 2 partialRows"
  by code_simp

lemma malformed_try: "fst (fetchAllAreas_try liveService net_malformed w0) = Inl TypeError"
  by code_simp

theorem fetchAllAreas_never_fails_witness:
  "\<not> useMockData liveService \<and> cache liveService ''allAreas'' = None
   \<and> fetchCounties liveService net_partial w0 = (Inr (JArr twoCounties), wp1)
   \<and> fst (fetchAllAreas liveService net_partial w0)
       = Inr ([builtinCountyRow ''Lamu'' ''005'', builtinCountyRow ''Isiolo'' ''011'']
              @ fst (areasLoop liveService net_partial twoCounties wp1))
   \<and> fst (areasLoop liveService net_partial ([] @ twoCounties ! 0 # [twoCounties ! 1]) wp1)
       = [] @ drop 2 partialRows
   \<and> fst (fetchAllAreas_try liveService net_malformed w0) = Inl TypeError
   \<and> fst (fetchAllAreas liveService net_malformed w0) = Inr getComprehensiveMockData
   \<and> fst (fetchJSON net_down (apiBase liveService @ ''/counties'') [] 8000 2 w0) = Inl TypeError
   \<and> fst (fetchCounties liveService net_down w0) = Inr getMockCounties"
proof -
  have live: "\<not> useMockData liveService" "cache liveService ''allAreas'' = None"
    by (simp_all add: liveService_def newDataService_def)
  have lamu: "getProp (twoCounties ! 0) ''name'' = Inr (JStr ''Lamu'')"
    by (simp add: twoCounties_def)
  have down: "fst (fetchJSON net_down (apiBase liveService @ ''/counties'') [] 8000 2 w0)
      = Inl TypeError"
    by (simp add: fetchJSON_net_down)
  have loop0: "areasLoop liveService net_partial [] wp1 = ([], wp1)"
    by simp
  note t1 = fetchAllAreas_never_fails [where ds = liveService and net = net_partial and w = w0
      and cs = twoCounties and ?w1.0 = wp1
      and rows = "[builtinCountyRow ''Lamu'' ''005'', builtinCountyRow ''Isiolo'' ''011'']"
      and pre = "[]" and a = "[]" and ?w2.0 = wp1 and c = "twoCounties ! 0"
      and n = "JStr ''Lamu''" and e' = "StatusError 500 ''Internal Server Error''"
      and ?w3.0 = wp2 and post = "[twoCounties ! 1]"]
  note t2 = fetchAllAreas_never_fails [where ds = liveService and net = net_malformed and w = w0
      and e = TypeError]
  note t3 = fetchAllAreas_never_fails [where ds = liveService and net = net_down and w = w0
      and e = TypeError]
  show ?thesis
    using t1 t2 t3 live lamu down loop0 partial_counties partial_county_rows partial_lamu_fails
      partial_isiolo_rows malformed_try
    by simp
qed

lemma five_rows_head: "code (hd fiveCountyRows) = JStr ''047''"
  by (simp add: fiveCountyRows_def builtinCountyRow_def)

theorem fetchAllAreas_fallback_counterexample:
  "fst (fetchJSON net_down (apiBase liveService @ ''/counties'') [] 8000 2 w0) = Inl TypeError
   \<and> fst (fetchAllAreas liveService net_down w0) = Inr fiveCountyRows
   \<and> fst (fetchAllAreas liveService net_down w0) \<noteq> Inr getComprehensiveMockData"
proof -
  have "fiveCountyRows \<noteq> getComprehensiveMockData"
  proof
    assume "fiveCountyRows = getComprehensiveMockData"
    then have "code (hd fiveCountyRows) = code (hd getComprehensiveMockData)"
      by simp
    then show False
      using mock_head mock_head_fields five_rows_head by simp
  qed
  then show ?thesis
    by (simp add: fetchJSON_net_down fetchAllAreas_net_down)
qed

section \<open>The shape of the records the repository produces\<close>

lemma countyData_named:
  "\<forall>e\<in>set countyData. fst e \<noteq> [] \<and> (\<forall>k\<in>set (snd e). k \<noteq> [])"
  by (simp add: countyData_def en_dash_def)

lemma mockCountyRow_shape: "c \<noteq> [] \<Longrightarrow> mockRecordShape (mockCountyRow n c)"
  by (simp add: mockRecordShape_def mockCountyRow_def valid_type_def nonEmptyString_def)

lemma mockConstituencyRows_shape:
  "c \<noteq> [] \<Longrightarrow> snd ic \<noteq> [] \<Longrightarrow> r \<in> set (mockConstituencyRows n c ic) \<Longrightarrow> mockRecordShape r"
  by (auto simp: mockConstituencyRows_def mockRecordShape_def mockConstituencyRow_def
      mockWardRow_def valid_type_def nonEmptyString_def)

lemma mockRows_shape:
  "\<forall>e\<in>set tbl. fst e \<noteq> [] \<and> (\<forall>k\<in>set (snd e). k \<noteq> []) \<Longrightarrow>
   r \<in> set (mockRows n tbl) \<Longrightarrow> mockRecordShape r"
proof (induction n tbl rule: mockRows.induct)
  case (1 countyCode)
  then show ?case by simp
next
  case (2 countyCode c cs rest)
  from "2.prems"(1) have c: "c \<noteq> []" and cs: "\<forall>k\<in>set cs. k \<noteq> []"
    by simp_all
  from "2.prems"(2) consider
      "r = mockCountyRow countyCode c"
    | ic where "ic \<in> set (enumerate 0 cs)" "r \<in> set (mockConstituencyRows countyCode c ic)"
    | "r \<in> set (mockRows (Suc countyCode) rest)"
    by auto
  then show ?case
  proof cases
    case 1
    with c show ?thesis by (simp add: mockCountyRow_shape)
  next
    case 2
    obtain i k where ik: "ic = (i, k)"
      by (cases ic)
    with 2(1) have "k = cs ! i" "i < length cs"
      by (simp_all add: in_set_enumerate_eq)
    with ik have "snd ic \<in> set cs"
      by simp
    with cs have "snd ic \<noteq> []" by blast
    with c 2(2) show ?thesis by (auto intro: mockConstituencyRows_shape)
  next
    case 3
    with "2.IH" "2.prems"(1) show ?thesis by simp
  qed
qed

lemma mock_shape: "r \<in> set getComprehensiveMockData \<Longrightarrow> mockRecordShape r"
  unfolding getComprehensiveMockData_def
  using countyData_named by (rule mockRows_shape)

lemma mock_assembled_shape: "mockRecordShape r \<Longrightarrow> assembledRecordShape r"
  by (simp add: mockRecordShape_def assembledRecordShape_def)

lemma concatMapE_all:
  "concatMapE f xs = Inr ys \<Longrightarrow> (\<And>x zs. x \<in> set xs \<Longrightarrow> f x = Inr zs \<Longrightarrow> \<forall>z\<in>set zs. P z) \<Longrightarrow>
   \<forall>y\<in>set ys. P y"
proof (induction xs arbitrary: ys)
  case Nil
  then show ?case by simp
next
  case (Cons x xs)
  from Cons.prems(1) obtain a b where ab: "f x = Inr a" "concatMapE f xs = Inr b" "ys = a @ b"
    by (auto simp: bindE_def split: sum.splits)
  have "\<forall>z\<in>set a. P z" using Cons.prems(2) [of x a] ab(1) by simp
  moreover have "\<forall>y\<in>set b. P y"
  proof (rule Cons.IH [OF ab(2)])
    fix x' zs
    assume "x' \<in> set xs" "f x' = Inr zs"
    then show "\<forall>z\<in>set zs. P z"
      using Cons.prems(2) [of x' zs] by simp
  qed
  ultimately show ?case using ab(3) by auto
qed

lemma forEachE_all:
  "forEachE v f = Inr ys \<Longrightarrow> (\<And>x zs. f x = Inr zs \<Longrightarrow> \<forall>z\<in>set zs. P z) \<Longrightarrow> \<forall>y\<in>set ys. P y"
  by (cases v) (auto simp: forEachE_def dest: concatMapE_all [where P = P])

lemma wardRow_shape: "wardRow n con wd = Inr zs \<Longrightarrow> \<forall>z\<in>set zs. assembledRecordShape z"
  by (auto simp: wardRow_def bindE_def assembledRecordShape_def valid_type_def split: sum.splits)

lemma constituencyRows_shape:
  assumes "constituencyRows n con = Inr zs"
  shows "\<forall>z\<in>set zs. assembledRecordShape z"
proof -
  from assms obtain cn cc ws rows where
    rows: "(if truthy ws then forEachE ws (wardRow n con) else Inr []) = Inr rows"
    and zs: "zs = \<lparr> name = cn, code = cc, type = JStr ''constituency'', county = n,
                    constituency = JUndefined \<rparr> # rows"
    by (auto simp: constituencyRows_def bindE_def split: sum.splits)
  have "\<forall>z\<in>set rows. assembledRecordShape z"
  proof (cases "truthy ws")
    case True
    with rows have "forEachE ws (wardRow n con) = Inr rows" by simp
    then show ?thesis by (rule forEachE_all) (rule wardRow_shape)
  next
    case False
    with rows show ?thesis by simp
  qed
  with zs show ?thesis
    by (simp add: assembledRecordShape_def valid_type_def)
qed

lemma countyRow_shape: "countyRow c = Inr zs \<Longrightarrow> \<forall>z\<in>set zs. assembledRecordShape z"
  by (auto simp: countyRow_def bindE_def assembledRecordShape_def valid_type_def split: sum.splits)

lemma fetchAreasByCounty_shape:
  assumes "fst (fetchAreasByCounty ds net n w) = Inr areas"
  shows "\<forall>r\<in>set areas. assembledRecordShape r"
proof (cases "useMockData ds")
  case True
  with assms have "set areas \<subseteq> set getComprehensiveMockData"
    by (auto simp: fetchAreasByCounty_def fetchAreasByCounty_try_def)
  then show ?thesis
    by (auto intro: mock_assembled_shape mock_shape)
next
  case False
  obtain r w1 where f: "fetchJSON net
      (apiBase ds @ ''/areas?county='' @ encodeURIComponent (toStringJS n)) [] 8000 2 w = (r, w1)"
    by (cases "fetchJSON net
      (apiBase ds @ ''/areas?county='' @ encodeURIComponent (toStringJS n)) [] 8000 2 w")
  let ?body = "bindE r (\<lambda>data. bindE (getProp data ''constituencies'')
      (\<lambda>cs. if truthy cs then forEachE cs (constituencyRows n) else Inr []))"
  from False f have t: "fetchAreasByCounty_try ds net n w = (?body, w1)"
    by (simp add: fetchAreasByCounty_try_def)
  show ?thesis
  proof (cases ?body)
    case (Inl e)
    with t assms show ?thesis by (simp add: fetchAreasByCounty_def)
  next
    case (Inr xs)
    with t assms have xs: "xs = areas" by (simp add: fetchAreasByCounty_def)
    from Inr obtain cs where
      "(if truthy cs then forEachE cs (constituencyRows n) else Inr []) = Inr xs"
      by (auto simp: bindE_def split: sum.splits)
    then have "\<forall>r\<in>set xs. assembledRecordShape r"
      by (cases "truthy cs") (auto dest: forEachE_all [where P = assembledRecordShape]
          simp: constituencyRows_shape)
    with xs show ?thesis by simp
  qed
qed

lemma countyAreas_shape: "\<forall>r\<in>set (fst (countyAreas ds net c w)). assembledRecordShape r"
proof (cases "getProp c ''name''")
  case (Inl e)
  then show ?thesis by (simp add: countyAreas_def)
next
  case (Inr n)
  obtain r w1 where f: "fetchAreasByCounty ds net n w = (r, w1)"
    by (cases "fetchAreasByCounty ds net n w")
  show ?thesis
  proof (cases r)
    case (Inl e)
    with Inr f show ?thesis by (simp add: countyAreas_def)
  next
    case r: (Inr areas)
    with f have "fst (fetchAreasByCounty ds net n w) = Inr areas" by simp
    then have "\<forall>r\<in>set areas. assembledRecordShape r" by (rule fetchAreasByCounty_shape)
    with Inr f r show ?thesis by (simp add: countyAreas_def)
  qed
qed

lemma areasLoop_shape: "\<forall>r\<in>set (fst (areasLoop ds net cs w)). assembledRecordShape r"
proof (induction cs arbitrary: w)
  case Nil
  show ?case by simp
next
  case (Cons c cs)
  obtain rows w1 where c: "countyAreas ds net c w = (rows, w1)"
    by (cases "countyAreas ds net c w")
  with countyAreas_shape [of ds net c w] have "\<forall>r\<in>set rows. assembledRecordShape r" by simp
  with c Cons.IH [of w1] show ?case by (auto split: prod.splits)
qed

lemma fetchAllAreas_shape:
  assumes "useMockData ds \<or> cache ds ''allAreas'' = None"
    and "fst (fetchAllAreas ds net w) = Inr areas"
  shows "\<forall>r\<in>set areas. assembledRecordShape r"
proof (cases "fst (fetchAllAreas_try ds net w)")
  case (Inl e)
  then have "fst (fetchAllAreas ds net w) = Inr getComprehensiveMockData"
    by (rule fetchAllAreas_catch)
  with assms(2) show ?thesis
    by (auto intro: mock_assembled_shape mock_shape)
next
  case (Inr xs)
  with assms(2) have xs: "xs = areas"
    by (auto simp: fetchAllAreas_def split: prod.splits sum.splits)
  show ?thesis
  proof (cases "useMockData ds")
    case True
    with Inr xs have "areas = getComprehensiveMockData"
      by (simp add: fetchAllAreas_try_def)
    then show ?thesis by (auto intro: mock_assembled_shape mock_shape)
  next
    case False
    with assms(1) have nc: "cache ds ''allAreas'' = None" by simp
    obtain rc w1 where fc: "fetchCounties ds net w = (rc, w1)"
      by (cases "fetchCounties ds net w")
    from Inr False nc fc obtain cl rows where
      cl: "rc = Inr cl" and rows: "forEachE cl countyRow = Inr rows"
      and res: "xs = rows @ fst (areasLoop ds net (case cl of JArr cs \<Rightarrow> cs | _ \<Rightarrow> []) w1)"
      by (auto simp: fetchAllAreas_try_def split: sum.splits prod.splits)
    from rows have "\<forall>r\<in>set rows. assembledRecordShape r"
      by (rule forEachE_all) (rule countyRow_shape)
    with res xs areasLoop_shape [of ds net "case cl of JArr cs \<Rightarrow> cs | _ \<Rightarrow> []" w1]
    show ?thesis by auto
  qed
qed

lemma wardRow_links:
  assumes "wardRow n con wd = Inr zs" and "getProp con ''name'' = Inr cn"
  shows "\<forall>z\<in>set zs. type z = JStr ''ward'' \<and> county z = n \<and> constituency z = cn"
proof -
  from assms obtain wn wc where "zs = [\<lparr> name = wn, code = wc, type = JStr ''ward'', county = n,
      constituency = cn \<rparr>]"
    by (auto simp: wardRow_def bindE_def split: sum.splits)
  then show ?thesis by simp
qed

text \<open>
  The rows of one county named \<open>n\<close>: each has \<open>n\<close> as its county; it is a constituency
  with no constituency of its own, or a ward whose constituency is the name of a
  constituency among the rows.
\<close>

lemma constituencyRows_links:
  assumes "constituencyRows n con = Inr zs"
  shows "\<forall>r\<in>set zs. county r = n
      \<and> ((type r = JStr ''constituency'' \<and> constituency r = JUndefined)
         \<or> (type r = JStr ''ward''
             \<and> (\<exists>k\<in>set zs. type k = JStr ''constituency'' \<and> name k = constituency r)))"
proof -
  from assms obtain cn cc ws rows where
    cn: "getProp con ''name'' = Inr cn"
    and rows: "(if truthy ws then forEachE ws (wardRow n con) else Inr []) = Inr rows"
    and zs: "zs = \<lparr> name = cn, code = cc, type = JStr ''constituency'', county = n,
                    constituency = JUndefined \<rparr> # rows"
    by (auto simp: constituencyRows_def bindE_def split: sum.splits)
  have w: "\<forall>z\<in>set rows. type z = JStr ''ward'' \<and> county z = n \<and> constituency z = cn"
  proof (cases "truthy ws")
    case True
    with rows have "forEachE ws (wardRow n con) = Inr rows" by simp
    then show ?thesis
    proof (rule forEachE_all)
      fix x zs'
      assume "wardRow n con x = Inr zs'"
      then show "\<forall>z\<in>set zs'. type z = JStr ''ward'' \<and> county z = n \<and> constituency z = cn"
        using cn by (rule wardRow_links)
    qed
  next
    case False
    with rows show ?thesis by simp
  qed
  show ?thesis
  proof
    fix r
    assume "r \<in> set zs"
    with zs consider "r = \<lparr> name = cn, code = cc, type = JStr ''constituency'', county = n,
                    constituency = JUndefined \<rparr>" | "r \<in> set rows"
      by auto
    then show "county r = n
      \<and> ((type r = JStr ''constituency'' \<and> constituency r = JUndefined)
         \<or> (type r = JStr ''ward''
             \<and> (\<exists>k\<in>set zs. type k = JStr ''constituency'' \<and> name k = constituency r)))"
    proof cases
      case 1
      then show ?thesis by simp
    next
      case 2
      with w have "type r = JStr ''ward''" "county r = n" "constituency r = cn"
        by simp_all
      moreover have "\<exists>k\<in>set zs. type k = JStr ''constituency'' \<and> name k = cn"
        using zs by simp
      ultimately show ?thesis by simp
    qed
  qed
qed

lemma concatMapE_links:
  assumes "concatMapE (constituencyRows n) xs = Inr ys"
  shows "\<forall>r\<in>set ys. county r = n
      \<and> ((type r = JStr ''constituency'' \<and> constituency r = JUndefined)
         \<or> (type r = JStr ''ward''
             \<and> (\<exists>k\<in>set ys. type k = JStr ''constituency'' \<and> name k = constituency r)))"
  using assms
proof (induction xs arbitrary: ys)
  case Nil
  then show ?case by simp
next
  case (Cons x xs)
  from Cons.prems obtain a b where a: "constituencyRows n x = Inr a"
    and b: "concatMapE (constituencyRows n) xs = Inr b" and ys: "ys = a @ b"
    by (auto simp: bindE_def split: sum.splits)
  note la = constituencyRows_links [OF a]
  note lb = Cons.IH [OF b]
  show ?case
  proof
    fix r
    assume "r \<in> set ys"
    with ys consider "r \<in> set a" | "r \<in> set b" by auto
    then show "county r = n
      \<and> ((type r = JStr ''constituency'' \<and> constituency r = JUndefined)
         \<or> (type r = JStr ''ward''
             \<and> (\<exists>k\<in>set ys. type k = JStr ''constituency'' \<and> name k = constituency r)))"
    proof cases
      case 1
      with la have "county r = n
        \<and> ((type r = JStr ''constituency'' \<and> constituency r = JUndefined)
           \<or> (type r = JStr ''ward''
               \<and> (\<exists>k\<in>set a. type k = JStr ''constituency'' \<and> name k = constituency r)))"
        by blast
      with ys show ?thesis by auto
    next
      case 2
      with lb have "county r = n
        \<and> ((type r = JStr ''constituency'' \<and> constituency r = JUndefined)
           \<or> (type r = JStr ''ward''
               \<and> (\<exists>k\<in>set b. type k = JStr ''constituency'' \<and> name k = constituency r)))"
        by blast
      with ys show ?thesis by auto
    qed
  qed
qed

lemma fetchAreasByCounty_links:
  assumes "\<not> useMockData ds" and "fst (fetchAreasByCounty ds net n w) = Inr areas"
  shows "\<forall>r\<in>set areas. county r = n
      \<and> ((type r = JStr ''constituency'' \<and> constituency r = JUndefined)
         \<or> (type r = JStr ''ward''
             \<and> (\<exists>k\<in>set areas. type k = JStr ''constituency'' \<and> name k = constituency r)))"
proof -
  obtain r w1 where f: "fetchJSON net
      (apiBase ds @ ''/areas?county='' @ encodeURIComponent (toStringJS n)) [] 8000 2 w = (r, w1)"
    by (cases "fetchJSON net
      (apiBase ds @ ''/areas?county='' @ encodeURIComponent (toStringJS n)) [] 8000 2 w")
  let ?body = "bindE r (\<lambda>data. bindE (getProp data ''constituencies'')
      (\<lambda>cs. if truthy cs then forEachE cs (constituencyRows n) else Inr []))"
  from assms(1) f have t: "fetchAreasByCounty_try ds net n w = (?body, w1)"
    by (simp add: fetchAreasByCounty_try_def)
  show ?thesis
  proof (cases ?body)
    case (Inl e)
    with t assms(2) show ?thesis by (simp add: fetchAreasByCounty_def)
  next
    case (Inr xs)
    with t assms(2) have xs: "xs = areas" by (simp add: fetchAreasByCounty_def)
    from Inr obtain cs where
      c: "(if truthy cs then forEachE cs (constituencyRows n) else Inr []) = Inr xs"
      by (auto simp: bindE_def split: sum.splits)
    show ?thesis
    proof (cases "truthy cs")
      case False
      with c xs show ?thesis by simp
    next
      case True
      with c have "forEachE cs (constituencyRows n) = Inr xs" by simp
      then obtain l where "concatMapE (constituencyRows n) l = Inr xs"
        by (cases cs) (simp_all add: forEachE_def)
      then show ?thesis unfolding xs by (rule concatMapE_links)
    qed
  qed
qed

lemma countyAreas_links:
  assumes "\<not> useMockData ds"
  shows "\<forall>r\<in>set (fst (countyAreas ds net c w)). getProp c ''name'' = Inr (county r)
      \<and> ((type r = JStr ''constituency'' \<and> constituency r = JUndefined)
         \<or> (type r = JStr ''ward''
             \<and> (\<exists>k\<in>set (fst (countyAreas ds net c w)).
                   type k = JStr ''constituency'' \<and> name k = constituency r)))"
proof (cases "getProp c ''name''")
  case (Inl e)
  then show ?thesis by (simp add: countyAreas_def)
next
  case (Inr n)
  obtain r w1 where f: "fetchAreasByCounty ds net n w = (r, w1)"
    by (cases "fetchAreasByCounty ds net n w")
  show ?thesis
  proof (cases r)
    case (Inl e)
    with Inr f show ?thesis by (simp add: countyAreas_def)
  next
    case r: (Inr areas)
    with f have "fst (fetchAreasByCounty ds net n w) = Inr areas" by simp
    note l = fetchAreasByCounty_links [OF assms this]
    from Inr f r have eq: "fst (countyAreas ds net c w) = areas"
      by (simp add: countyAreas_def)
    show ?thesis
      unfolding eq using l Inr by simp
  qed
qed

lemma areasLoop_links:
  assumes "\<not> useMockData ds"
  shows "\<forall>r\<in>set (fst (areasLoop ds net cs w)).
      (\<exists>c\<in>set cs. getProp c ''name'' = Inr (county r))
      \<and> ((type r = JStr ''constituency'' \<and> constituency r = JUndefined)
         \<or> (type r = JStr ''ward''
             \<and> (\<exists>k\<in>set (fst (areasLoop ds net cs w)).
                   type k = JStr ''constituency'' \<and> name k = constituency r)))"
proof (induction cs arbitrary: w)
  case Nil
  show ?case by simp
next
  case (Cons c cs)
  obtain rows w1 where c: "countyAreas ds net c w = (rows, w1)"
    by (cases "countyAreas ds net c w")
  obtain rest w2 where l: "areasLoop ds net cs w1 = (rest, w2)"
    by (cases "areasLoop ds net cs w1")
  from c l have eq: "fst (areasLoop ds net (c # cs) w) = rows @ rest"
    by simp
  from countyAreas_links [OF assms, of net c w] c
  have la: "\<forall>r\<in>set rows. getProp c ''name'' = Inr (county r)
      \<and> ((type r = JStr ''constituency'' \<and> constituency r = JUndefined)
         \<or> (type r = JStr ''ward''
             \<and> (\<exists>k\<in>set rows. type k = JStr ''constituency'' \<and> name k = constituency r)))"
    by simp
  from Cons.IH [of w1] l
  have lb: "\<forall>r\<in>set rest. (\<exists>c\<in>set cs. getProp c ''name'' = Inr (county r))
      \<and> ((type r = JStr ''constituency'' \<and> constituency r = JUndefined)
         \<or> (type r = JStr ''ward''
             \<and> (\<exists>k\<in>set rest. type k = JStr ''constituency'' \<and> name k = constituency r)))"
    by simp
  show ?case
    unfolding eq
  proof
    fix r
    assume "r \<in> set (rows @ rest)"
    then consider "r \<in> set rows" | "r \<in> set rest" by auto
    then show "(\<exists>c\<in>set (c # cs). getProp c ''name'' = Inr (county r))
      \<and> ((type r = JStr ''constituency'' \<and> constituency r = JUndefined)
         \<or> (type r = JStr ''ward''
             \<and> (\<exists>k\<in>set (rows @ rest). type k = JStr ''constituency'' \<and> name k = constituency r)))"
    proof cases
      case 1
      with la have "getProp c ''name'' = Inr (county r)
        \<and> ((type r = JStr ''constituency'' \<and> constituency r = JUndefined)
           \<or> (type r = JStr ''ward''
               \<and> (\<exists>k\<in>set rows. type k = JStr ''constituency'' \<and> name k = constituency r)))"
        by blast
      then show ?thesis by auto
    next
      case 2
      with lb have "(\<exists>c\<in>set cs. getProp c ''name'' = Inr (county r))
        \<and> ((type r = JStr ''constituency'' \<and> constituency r = JUndefined)
           \<or> (type r = JStr ''ward''
               \<and> (\<exists>k\<in>set rest. type k = JStr ''constituency'' \<and> name k = constituency r)))"
        by blast
      then show ?thesis by auto
    qed
  qed
qed

lemma countyRows_links:
  assumes "concatMapE countyRow cs = Inr rows"
  shows "(\<forall>r\<in>set rows. type r = JStr ''county'' \<and> county r = name r \<and> constituency r = JUndefined)
      \<and> (\<forall>c\<in>set cs. \<forall>n. getProp c ''name'' = Inr n \<longrightarrow>
            (\<exists>r\<in>set rows. type r = JStr ''county'' \<and> name r = n))"
  using assms
proof (induction cs arbitrary: rows)
  case Nil
  then show ?case by simp
next
  case (Cons c cs)
  from Cons.prems obtain a b where a: "countyRow c = Inr a"
    and b: "concatMapE countyRow cs = Inr b" and rows: "rows = a @ b"
    by (auto simp: bindE_def split: sum.splits)
  from a obtain n cd where n: "getProp c ''name'' = Inr n"
    and ar: "a = [\<lparr> name = n, code = cd, type = JStr ''county'', county = n,
                    constituency = JUndefined \<rparr>]"
    by (auto simp: countyRow_def bindE_def split: sum.splits)
  note ih = Cons.IH [OF b]
  have 1: "\<forall>r\<in>set rows. type r = JStr ''county'' \<and> county r = name r \<and> constituency r = JUndefined"
    using ih ar rows by auto
  have 2: "\<forall>c'\<in>set (c # cs). \<forall>m. getProp c' ''name'' = Inr m \<longrightarrow>
            (\<exists>r\<in>set rows. type r = JStr ''county'' \<and> name r = m)"
  proof (intro ballI allI impI)
    fix c' m
    assume c': "c' \<in> set (c # cs)" and m: "getProp c' ''name'' = Inr m"
    show "\<exists>r\<in>set rows. type r = JStr ''county'' \<and> name r = m"
    proof (cases "c' = c")
      case True
      with m n have "m = n" by simp
      with ar rows show ?thesis by simp
    next
      case False
      with c' have "c' \<in> set cs" by simp
      with ih m obtain r where "r \<in> set b" "type r = JStr ''county''" "name r = m"
        by blast
      with rows show ?thesis by auto
    qed
  qed
  from 1 2 show ?case by simp
qed

lemma fetchAllAreas_named_shape:
  assumes src: "useMockData ds \<or> cache ds ''allAreas'' = None"
    and res: "fst (fetchAllAreas ds net w) = Inr areas"
    and named: "\<forall>r\<in>set areas. type r = JStr ''county'' \<or> type r = JStr ''constituency'' \<longrightarrow>
        nonEmptyString (name r)"
  shows "\<forall>r\<in>set areas. mockRecordShape r"
proof (cases "fst (fetchAllAreas_try ds net w)")
  case (Inl e)
  then have "fst (fetchAllAreas ds net w) = Inr getComprehensiveMockData"
    by (rule fetchAllAreas_catch)
  with res show ?thesis
    by (auto intro: mock_shape)
next
  case (Inr xs)
  with res have xs: "xs = areas"
    by (auto simp: fetchAllAreas_def split: prod.splits sum.splits)
  show ?thesis
  proof (cases "useMockData ds")
    case True
    with Inr xs have "areas = getComprehensiveMockData"
      by (simp add: fetchAllAreas_try_def)
    then show ?thesis by (auto intro: mock_shape)
  next
    case False
    with src have nc: "cache ds ''allAreas'' = None" by simp
    obtain rc w1 where fc: "fetchCounties ds net w = (rc, w1)"
      by (cases "fetchCounties ds net w")
    from Inr False nc fc obtain cl rows where
      cl: "rc = Inr cl" and rows: "forEachE cl countyRow = Inr rows"
      and res': "xs = rows @ fst (areasLoop ds net (case cl of JArr cs \<Rightarrow> cs | _ \<Rightarrow> []) w1)"
      by (auto simp: fetchAllAreas_try_def split: sum.splits prod.splits)
    from rows obtain cs where cs: "cl = JArr cs" and crows: "concatMapE countyRow cs = Inr rows"
      by (cases cl) (simp_all add: forEachE_def)
    let ?rest = "fst (areasLoop ds net cs w1)"
    from res' cs xs have areas: "areas = rows @ ?rest" by simp
    note lr = countyRows_links [OF crows]
    note ll = areasLoop_links [OF False, of net cs w1]
    show ?thesis
    proof
      fix r
      assume "r \<in> set areas"
      with areas consider "r \<in> set rows" | "r \<in> set ?rest" by auto
      then show "mockRecordShape r"
      proof cases
        case 1
        with lr have t: "type r = JStr ''county''" "county r = name r" "constituency r = JUndefined"
          by simp_all
        from 1 areas named t(1) have "nonEmptyString (name r)" by simp
        with t show ?thesis
          by (simp add: mockRecordShape_def valid_type_def)
      next
        case 2
        with ll obtain c where c: "c \<in> set cs" "getProp c ''name'' = Inr (county r)"
          by blast
        with lr obtain cr where cr: "cr \<in> set rows" "type cr = JStr ''county''" "name cr = county r"
          by blast
        with areas named have ne: "nonEmptyString (county r)"
          by auto
        from 2 ll consider
            "type r = JStr ''constituency''" "constituency r = JUndefined"
          | k where "type r = JStr ''ward''" "k \<in> set ?rest" "type k = JStr ''constituency''"
              "name k = constituency r"
          by blast
        then show ?thesis
        proof cases
          case 1
          with ne show ?thesis
            by (simp add: mockRecordShape_def valid_type_def)
        next
          case 2
          with areas named have "nonEmptyString (constituency r)"
            by auto
          with 2(1) ne show ?thesis
            by (simp add: mockRecordShape_def valid_type_def)
        qed
      qed
    qed
  qed
qed

text \<open>
  Claim C5, as amended. Every record of the built-in data set has one of the three
  types; a ward has a county and a constituency that are non-empty strings; a
  constituency has a county that is a non-empty string and no constituency; a county
  record carries its own name, a non-empty string, as its county and has no
  constituency. Every record \<open>fetchAllAreas\<close> returns, when the result does not come
  from the cache, has one of the three types; a county record carries its own name as
  its county, and a county or constituency record has no constituency. The county of
  every such record is the name of a county record of the result, and the constituency
  of a ward is the name of a constituency record of the result: so when the names of the
  county and constituency records, which are the names the remote source sent, are
  non-empty strings, every record of the result has the shape of the records of the
  built-in data set.
\<close>

theorem repository_record_shape:
  "(\<forall>r\<in>set getComprehensiveMockData. mockRecordShape r)
   \<and> ((useMockData ds \<or> cache ds ''allAreas'' = None)
        \<and> fst (fetchAllAreas ds net w) = Inr areas \<longrightarrow>
        (\<forall>r\<in>set areas. assembledRecordShape r)
        \<and> ((\<forall>r\<in>set areas. type r = JStr ''county'' \<or> type r = JStr ''constituency'' \<longrightarrow>
                nonEmptyString (name r)) \<longrightarrow>
            (\<forall>r\<in>set areas. mockRecordShape r)))"
proof (intro conjI impI)
  show "\<forall>r\<in>set getComprehensiveMockData. mockRecordShape r"
    using mock_shape by blast
  show "\<forall>r\<in>set areas. assembledRecordShape r"
    if "(useMockData ds \<or> cache ds ''allAreas'' = None) \<and> fst (fetchAllAreas ds net w) = Inr areas"
    using that by (intro fetchAllAreas_shape [of ds net w areas]) simp_all
  show "\<forall>r\<in>set areas. mockRecordShape r"
    if "(useMockData ds \<or> cache ds ''allAreas'' = None) \<and> fst (fetchAllAreas ds net w) = Inr areas"
      and "\<forall>r\<in>set areas. type r = JStr ''county'' \<or> type r = JStr ''constituency'' \<longrightarrow>
                nonEmptyString (name r)"
    using that by (intro fetchAllAreas_named_shape [of ds net w areas]) simp_all
qed

lemma partial_all: "fst (fetchAllAreas liveService net_partial w0) = Inr partialRows"
  by code_simp

lemma blank_all: "fst (fetchAllAreas liveService net_blank w0) = Inr blankRows"
  by code_simp

lemma partial_named:
  "list_all (\<lambda>r. type r = JStr ''county'' \<or> type r = JStr ''constituency'' \<longrightarrow>
      nonEmptyString (name r)) partialRows"
  by (simp add: partialRows_def builtinCountyRow_def nonEmptyString_def)

theorem repository_record_shape_witness:
  "cache liveService ''allAreas'' = None
   \<and> fst (fetchAllAreas liveService net_partial w0) = Inr partialRows
   \<and> list_all (\<lambda>r. type r = JStr ''county'' \<or> type r = JStr ''constituency'' \<longrightarrow>
        nonEmptyString (name r)) partialRows
   \<and> list_all assembledRecordShape partialRows
   \<and> list_all mockRecordShape partialRows
   \<and> hd getComprehensiveMockData \<in> set getComprehensiveMockData
   \<and> mockRecordShape (hd getComprehensiveMockData)"
proof -
  have c: "cache liveService ''allAreas'' = None"
    by (simp add: liveService_def newDataService_def)
  have h: "hd getComprehensiveMockData \<in> set getComprehensiveMockData"
    using mock_head hd_in_set by blast
  then have m: "mockRecordShape (hd getComprehensiveMockData)"
    by (rule mock_shape)
  show ?thesis
    using repository_record_shape [of liveService net_partial w0 partialRows] c h m partial_all
      partial_named
    by (simp add: list_all_iff)
qed

theorem repository_record_shape_counterexample:
  "hd getComprehensiveMockData \<in> set getComprehensiveMockData
   \<and> type (hd getComprehensiveMockData) = JStr ''county''
   \<and> county (hd getComprehensiveMockData) = JStr ''Nairobi''
   \<and> fst (fetchAllAreas liveService net_blank w0) = Inr blankRows
   \<and> type (blankRows ! 1) = JStr ''constituency''
   \<and> county (blankRows ! 1) = JStr []"
proof -
  have "hd getComprehensiveMockData \<in> set getComprehensiveMockData"
    using mock_head hd_in_set by blast
  moreover have "type (hd getComprehensiveMockData) = JStr ''county''"
    "county (hd getComprehensiveMockData) = JStr ''Nairobi''"
    using mock_head mock_head_fields by simp_all
  moreover have "type (blankRows ! 1) = JStr ''constituency''" "county (blankRows ! 1) = JStr []"
    by (simp_all add: blankRows_def)
  ultimately show ?thesis
    using blank_all by simp
qed

section \<open>Sorting\<close>

lemma insertE_pure:
  "\<forall>y\<in>set ys. cmp x y = Inr (f x y) \<Longrightarrow> insertE cmp x ys = Inr (insertP f x ys)"
  by (induction ys) (simp_all add: bindE_def)

lemma set_insertP: "set (insertP f x ys) = insert x (set ys)"
  by (induction ys) auto

lemma length_insertP: "length (insertP f x ys) = Suc (length ys)"
  by (induction ys) auto

lemma set_sortP: "set (sortP f xs) = set xs"
  by (induction xs) (simp_all add: set_insertP)

lemma length_sortP: "length (sortP f xs) = length xs"
  by (induction xs) (simp_all add: length_insertP)

lemma arraySort_pure:
  "\<forall>x\<in>set xs. \<forall>y\<in>set xs. cmp x y = Inr (f x y) \<Longrightarrow> arraySort cmp xs = Inr (sortP f xs)"
proof (induction xs)
  case Nil
  show ?case by simp
next
  case (Cons x xs)
  then have "arraySort cmp xs = Inr (sortP f xs)" by simp
  moreover have "insertE cmp x (sortP f xs) = Inr (insertP f x (sortP f xs))"
    using Cons.prems by (intro insertE_pure) (simp add: set_sortP)
  ultimately show ?case by (simp add: bindE_def)
qed

lemma insertP_sorted:
  assumes "sorted_wrt lt ys"
    and "\<forall>y\<in>set ys. (f x y \<le> 0 \<longrightarrow> lt x y) \<and> (\<not> f x y \<le> 0 \<longrightarrow> lt y x)"
    and "\<forall>y\<in>set ys. \<forall>z\<in>set ys. lt x y \<longrightarrow> lt y z \<longrightarrow> lt x z"
  shows "sorted_wrt lt (insertP f x ys)"
  using assms
proof (induction ys)
  case Nil
  show ?case by simp
next
  case (Cons y ys)
  show ?case
  proof (cases "f x y \<le> 0")
    case True
    with Cons.prems(2) have xy: "lt x y" by simp
    have "\<forall>z\<in>set ys. lt x z"
      using xy Cons.prems(1,3) by auto
    with True xy Cons.prems(1) show ?thesis by simp
  next
    case False
    with Cons.prems(2) have yx: "lt y x" by simp
    have "sorted_wrt lt (insertP f x ys)"
    proof (rule Cons.IH)
      show "sorted_wrt lt ys"
        using Cons.prems(1) by simp
      show "\<forall>y\<in>set ys. (f x y \<le> 0 \<longrightarrow> lt x y) \<and> (\<not> f x y \<le> 0 \<longrightarrow> lt y x)"
        using Cons.prems(2) by (meson list.set_intros(2))
      show "\<forall>y\<in>set ys. \<forall>z\<in>set ys. lt x y \<longrightarrow> lt y z \<longrightarrow> lt x z"
        using Cons.prems(3) by (meson list.set_intros(2))
    qed
    with False yx Cons.prems(1) show ?thesis by (simp add: set_insertP)
  qed
qed

lemma sortP_sorted:
  assumes "distinct xs"
    and "\<forall>x\<in>set xs. \<forall>y\<in>set xs. x \<noteq> y \<longrightarrow> (f x y \<le> 0 \<longrightarrow> lt x y) \<and> (\<not> f x y \<le> 0 \<longrightarrow> lt y x)"
    and "\<forall>x\<in>set xs. \<forall>y\<in>set xs. \<forall>z\<in>set xs. lt x y \<longrightarrow> lt y z \<longrightarrow> lt x z"
  shows "sorted_wrt lt (sortP f xs)"
  using assms
proof (induction xs)
  case Nil
  show ?case by simp
next
  case (Cons x xs)
  have "sorted_wrt lt (sortP f xs)"
  proof (rule Cons.IH)
    show "distinct xs"
      using Cons.prems(1) by simp
    show "\<forall>x\<in>set xs. \<forall>y\<in>set xs. x \<noteq> y \<longrightarrow>
        (f x y \<le> 0 \<longrightarrow> lt x y) \<and> (\<not> f x y \<le> 0 \<longrightarrow> lt y x)"
      using Cons.prems(2) by (meson list.set_intros(2))
    show "\<forall>x\<in>set xs. \<forall>y\<in>set xs. \<forall>z\<in>set xs. lt x y \<longrightarrow> lt y z \<longrightarrow> lt x z"
      using Cons.prems(3) by (meson list.set_intros(2))
  qed
  moreover have "\<forall>y\<in>set (sortP f xs). (f x y \<le> 0 \<longrightarrow> lt x y) \<and> (\<not> f x y \<le> 0 \<longrightarrow> lt y x)"
  proof
    fix y
    assume "y \<in> set (sortP f xs)"
    then have y: "y \<in> set xs" by (simp add: set_sortP)
    with Cons.prems(1) have "x \<noteq> y" by auto
    with Cons.prems(2) y show "(f x y \<le> 0 \<longrightarrow> lt x y) \<and> (\<not> f x y \<le> 0 \<longrightarrow> lt y x)"
      by (meson list.set_intros)
  qed
  moreover have "\<forall>y\<in>set (sortP f xs). \<forall>z\<in>set (sortP f xs). lt x y \<longrightarrow> lt y z \<longrightarrow> lt x z"
    unfolding set_sortP using Cons.prems(3) by (meson list.set_intros)
  ultimately show ?case
    unfolding sortP.simps by (rule insertP_sorted)
qed

lemma sorted_wrt_unique:
  assumes "sorted_wrt lt xs" and "sorted_wrt lt ys" and "set xs = set ys"
    and "\<forall>a\<in>set xs. \<forall>b\<in>set xs. lt a b \<longrightarrow> \<not> lt b a"
  shows "xs = ys"
  using assms
proof (induction xs arbitrary: ys)
  case Nil
  then show ?case by simp
next
  case (Cons x xs)
  from Cons.prems(3) obtain y ys' where ys: "ys = y # ys'"
    by (cases ys) auto
  have irrefl: "\<not> lt a a" if "a \<in> set (x # xs)" for a
    using Cons.prems(4) that by blast
  have xy: "x = y"
  proof (rule ccontr)
    assume ne: "x \<noteq> y"
    from Cons.prems(3) ys ne have "x \<in> set ys'" "y \<in> set xs"
      by auto
    with Cons.prems(1,2) ys have "lt y x" "lt x y"
      by auto
    with Cons.prems(4) \<open>y \<in> set xs\<close> show False
      by auto
  qed
  have "x \<notin> set xs"
    using Cons.prems(1) irrefl [of x] by auto
  moreover have "y \<notin> set ys'"
    using Cons.prems(2,3) ys irrefl [of y] by auto
  ultimately have "set xs = set ys'"
    using Cons.prems(3) ys xy by auto
  moreover have "sorted_wrt lt xs" "sorted_wrt lt ys'"
    using Cons.prems(1,2) ys by simp_all
  moreover have "\<forall>a\<in>set xs. \<forall>b\<in>set xs. lt a b \<longrightarrow> \<not> lt b a"
    using Cons.prems(4) by (meson list.set_intros(2))
  ultimately have "xs = ys'"
    by (intro Cons.IH)
  with xy ys show ?case by simp
qed

lemma localeCompareJS_strings:
  "isString (name a) \<Longrightarrow> isString (name b) \<Longrightarrow>
   localeCompareJS lc (name a) (name b) = Inr (lc (stringOf (name a)) (stringOf (name b)))"
  by (cases "name a"; cases "name b") (simp_all add: localeCompareJS_def isString_def stringOf_def)

lemma reverse_of_ascending:
  assumes str: "\<forall>r\<in>set R. isString (name r)"
    and dist: "distinct (map (\<lambda>r. stringOf (name r)) R)"
    and ord: "strictOrderOn lc (map (\<lambda>r. stringOf (name r)) R)"
  shows "sortData lc R ''name'' = Inr (sortP (\<lambda>a b. lc (stringOf (name a)) (stringOf (name b))) R)"
    and "sortData lc R ''name-desc'' = Inr (sortP (\<lambda>a b. lc (stringOf (name b)) (stringOf (name a))) R)"
    and "rev (sortP (\<lambda>a b. lc (stringOf (name a)) (stringOf (name b))) R)
         = sortP (\<lambda>a b. lc (stringOf (name b)) (stringOf (name a))) R"
proof -
  let ?k = "\<lambda>r. stringOf (name r)"
  let ?f = "\<lambda>a b. lc (?k a) (?k b)"
  let ?g = "\<lambda>a b. lc (?k b) (?k a)"
  let ?lt = "\<lambda>a b. lc (?k a) (?k b) < 0"
  let ?gt = "\<lambda>a b. ?lt b a"
  show "sortData lc R ''name'' = Inr (sortP ?f R)"
    using str by (simp add: sortData_def arraySort_pure localeCompareJS_strings)
  show "sortData lc R ''name-desc'' = Inr (sortP ?g R)"
    using str by (simp add: sortData_def arraySort_pure localeCompareJS_strings)
  have dR: "distinct R"
    using dist by (simp add: distinct_map)
  have inj: "?k a \<noteq> ?k b" if "a \<in> set R" "b \<in> set R" "a \<noteq> b" for a b
    using dist that by (auto simp: distinct_map inj_on_def)
  have zero: "lc (?k a) (?k b) \<noteq> 0" if "a \<in> set R" "b \<in> set R" "a \<noteq> b" for a b
    using ord inj [OF that] that by (auto simp: strictOrderOn_def)
  have flip: "(lc (?k a) (?k b) < 0) = (0 < lc (?k b) (?k a))" if "a \<in> set R" "b \<in> set R" for a b
    using ord that by (auto simp: strictOrderOn_def)
  have trans: "lc (?k a) (?k c) < 0"
    if "a \<in> set R" "b \<in> set R" "c \<in> set R" "lc (?k a) (?k b) < 0" "lc (?k b) (?k c) < 0" for a b c
  proof -
    from that(1-3) have "?k a \<in> set (map ?k R)" "?k b \<in> set (map ?k R)" "?k c \<in> set (map ?k R)"
      by simp_all
    with ord that(4,5) show ?thesis
      unfolding strictOrderOn_def by blast
  qed
  have split: "(lc (?k a) (?k b) \<le> 0 \<longrightarrow> lc (?k a) (?k b) < 0)
      \<and> (\<not> lc (?k a) (?k b) \<le> 0 \<longrightarrow> lc (?k b) (?k a) < 0)"
    if "a \<in> set R" "b \<in> set R" "a \<noteq> b" for a b
    using zero [OF that] flip [OF that(2) that(1)] by auto
  have asym: "\<not> (lc (?k a) (?k b) < 0 \<and> lc (?k b) (?k a) < 0)" if "a \<in> set R" "b \<in> set R" for a b
    using flip [OF that] by auto
  have asc: "sorted_wrt ?lt (sortP ?f R)"
  proof (rule sortP_sorted [OF dR])
    show "\<forall>x\<in>set R. \<forall>y\<in>set R. x \<noteq> y \<longrightarrow>
        (?f x y \<le> 0 \<longrightarrow> ?lt x y) \<and> (\<not> ?f x y \<le> 0 \<longrightarrow> ?lt y x)"
      using split by blast
    show "\<forall>x\<in>set R. \<forall>y\<in>set R. \<forall>z\<in>set R. ?lt x y \<longrightarrow> ?lt y z \<longrightarrow> ?lt x z"
      using trans by blast
  qed
  have desc: "sorted_wrt ?gt (sortP ?g R)"
  proof (rule sortP_sorted [OF dR])
    show "\<forall>x\<in>set R. \<forall>y\<in>set R. x \<noteq> y \<longrightarrow>
        (?g x y \<le> 0 \<longrightarrow> ?gt x y) \<and> (\<not> ?g x y \<le> 0 \<longrightarrow> ?gt y x)"
      using split by blast
    show "\<forall>x\<in>set R. \<forall>y\<in>set R. \<forall>z\<in>set R. ?gt x y \<longrightarrow> ?gt y z \<longrightarrow> ?gt x z"
      using trans by blast
  qed
  from asc have "sorted_wrt ?gt (rev (sortP ?f R))"
    by (simp add: sorted_wrt_rev)
  moreover have "set (rev (sortP ?f R)) = set (sortP ?g R)"
    by (simp add: set_sortP)
  moreover have "\<forall>a\<in>set (rev (sortP ?f R)). \<forall>b\<in>set (rev (sortP ?f R)). ?gt a b \<longrightarrow> \<not> ?gt b a"
    using asym by (simp add: set_sortP)
  ultimately show "rev (sortP ?f R) = sortP ?g R"
    using desc by (intro sorted_wrt_unique [where lt = ?gt])
qed

section \<open>The filter\<close>

lemma filterE_pure: "\<forall>x\<in>set xs. p x = Inr (q x) \<Longrightarrow> filterE p xs = Inr (filter q xs)"
  by (induction xs) (simp_all add: bindE_def)

lemma filterE_subseq: "filterE p xs = Inr ys \<Longrightarrow> subseq ys xs"
proof (induction xs arbitrary: ys)
  case Nil
  then show ?case by simp
next
  case (Cons x xs)
  from Cons.prems obtain b zs where b: "p x = Inr b" and zs: "filterE p xs = Inr zs"
    and ys: "ys = (if b then x # zs else zs)"
    by (auto simp: bindE_def split: sum.splits)
  from Cons.IH [OF zs] ys show ?case by auto
qed

lemma itemMatches_wellFormed:
  assumes "wellFormed item" and "(toLowerCase s = []) = (s = [])"
  shows "itemMatches toLowerCase (toLowerCase s) c t item = Inr (survives toLowerCase s c t item)"
proof -
  from assms(1) obtain n where n: "name item = JStr n"
    by (cases "name item") (simp_all add: wellFormed_def isString_def)
  from assms(1) consider cc where "county item = JStr cc" "cc \<noteq> []"
    | "\<not> truthy (county item)" "stringOf (county item) = []"
    by (cases "county item") (auto simp: wellFormed_def isString_def stringOf_def)
  then show ?thesis
  proof cases
    case 1
    with n assms(2) show ?thesis
      by (auto simp: itemMatches_def matchesSearch_def bindE_def survives_def searchCriterion_def
          stringOf_def)
  next
    case 2
    with n assms(2) show ?thesis
      by (auto simp: itemMatches_def matchesSearch_def bindE_def survives_def searchCriterion_def
          stringOf_def)
  qed
qed

lemma filterStage_wellFormed:
  "(toLowerCase s = []) = (s = []) \<Longrightarrow> \<forall>item\<in>set R. wellFormed item \<Longrightarrow>
   filterStage toLowerCase s c t R = Inr (filter (survives toLowerCase s c t) R)"
  unfolding filterStage_def by (rule filterE_pure) (simp add: itemMatches_wellFormed)

lemma filterStage_inactive:
  assumes "toLowerCase [] = []"
  shows "filterStage toLowerCase [] [] [] R = Inr R"
proof -
  have "\<forall>item\<in>set R. itemMatches toLowerCase (toLowerCase []) [] [] item = Inr ((\<lambda>_. True) item)"
    using assms by (simp add: itemMatches_def matchesSearch_def bindE_def)
  then have "filterE (itemMatches toLowerCase (toLowerCase []) [] []) R = Inr (filter (\<lambda>_. True) R)"
    by (rule filterE_pure)
  then show ?thesis by (simp add: filterStage_def)
qed

text \<open>
  Claim C6. \<open>toLowerCase\<close> is the engine's lower-casing, which gives the empty string
  for the empty string only. For records whose name is a string and whose county is a
  string or counts as false, the filter of \<open>applyFilters\<close> keeps exactly the records for
  which every active criterion matches, in their original order: the search criterion
  matches when the lower-cased name, or the lower-cased county when there is one,
  contains the lower-cased search input; the county and type criteria match on
  equality; an empty criterion matches every record. With no active criterion the
  filter returns all of \<open>R\<close> in order, for any \<open>R\<close>; whatever it returns is a
  subsequence of \<open>R\<close>; and a sort key that \<open>sortData\<close> does not know leaves the filtered
  records as they are.
\<close>

theorem filter_keeps_matching_in_order:
  "((toLowerCase s = []) = (s = []) \<and> (\<forall>item\<in>set R. wellFormed item) \<longrightarrow>
      filterStage toLowerCase s c t R = Inr (filter (survives toLowerCase s c t) R)
      \<and> subseq (filter (survives toLowerCase s c t) R) R)
   \<and> (toLowerCase [] = [] \<longrightarrow> filterStage toLowerCase [] [] [] R = Inr R)
   \<and> (filterStage toLowerCase s c t R = Inr S \<longrightarrow> subseq S R)
   \<and> (sortBy \<noteq> ''name'' \<and> sortBy \<noteq> ''name-desc'' \<and> sortBy \<noteq> ''type'' \<longrightarrow>
        applyFilters lc toLowerCase s c t sortBy R = filterStage toLowerCase s c t R)"
proof (intro conjI impI)
  show "filterStage toLowerCase s c t R = Inr (filter (survives toLowerCase s c t) R)"
    if "(toLowerCase s = []) = (s = []) \<and> (\<forall>item\<in>set R. wellFormed item)"
    using that by (intro filterStage_wellFormed) simp_all
  show "subseq (filter (survives toLowerCase s c t) R) R"
    by simp
  show "filterStage toLowerCase [] [] [] R = Inr R" if "toLowerCase [] = []"
    using that by (rule filterStage_inactive)
  show "subseq S R" if "filterStage toLowerCase s c t R = Inr S"
    using that unfolding filterStage_def by (rule filterE_subseq)
  show "applyFilters lc toLowerCase s c t sortBy R = filterStage toLowerCase s c t R"
    if "sortBy \<noteq> ''name'' \<and> sortBy \<noteq> ''name-desc'' \<and> sortBy \<noteq> ''type''"
    using that
    by (cases "filterStage toLowerCase s c t R") (simp_all add: applyFilters_def bindE_def sortData_def)
qed

lemma scenario_wellFormed: "list_all wellFormed scenarioR"
  by (simp add: scenarioR_def wellFormed_def isString_def)

lemma scenario_park: "filterStage asciiLowerCase ''park'' [] [] scenarioR = Inr [scenarioR ! 2]"
  by code_simp

lemma scenario_nairobi_ward:
  "filterStage asciiLowerCase ''NAIROBI'' ''Nairobi'' ''ward'' scenarioR
     = Inr [scenarioR ! 2, scenarioR ! 3]"
  by code_simp

theorem filter_keeps_matching_in_order_witness:
  "asciiLowerCase [] = []
   \<and> (asciiLowerCase ''park'' = []) = (''park'' = [])
   \<and> list_all wellFormed scenarioR
   \<and> filterStage asciiLowerCase ''park'' [] [] scenarioR = Inr [scenarioR ! 2]
   \<and> filter (survives asciiLowerCase ''park'' [] []) scenarioR = [scenarioR ! 2]
   \<and> filterStage asciiLowerCase ''NAIROBI'' ''Nairobi'' ''ward'' scenarioR
       = Inr [scenarioR ! 2, scenarioR ! 3]
   \<and> subseq [scenarioR ! 2, scenarioR ! 3] scenarioR
   \<and> filterStage asciiLowerCase [] [] [] scenarioR = Inr scenarioR
   \<and> applyFilters codeUnitCompare asciiLowerCase ''park'' [] [] ''relevance'' scenarioR
       = Inr [scenarioR ! 2]"
  using filter_keeps_matching_in_order [of asciiLowerCase "''park''" scenarioR "[]" "[]"
      "[scenarioR ! 2]" "''relevance''" codeUnitCompare]
    filter_keeps_matching_in_order [of asciiLowerCase "''NAIROBI''" scenarioR "''Nairobi''"
      "''ward''" "[scenarioR ! 2, scenarioR ! 3]" "''relevance''" codeUnitCompare]
    scenario_wellFormed scenario_park scenario_nairobi_ward
  by (simp add: list_all_iff asciiLowerCase_def)

text \<open>
  Claim C7, as amended. For records whose names are strings that the collation orders
  strictly, so that it ties no two of them, \<open>sortData\<close> succeeds for both keys and the
  reverse of the result for \<open>name\<close> is the result for \<open>name-desc\<close>.
\<close>

theorem name_desc_is_reverse_of_name:
  "(\<forall>r\<in>set R. isString (name r)) \<and> distinct (map (\<lambda>r. stringOf (name r)) R)
     \<and> strictOrderOn lc (map (\<lambda>r. stringOf (name r)) R) \<longrightarrow>
   (\<exists>asc desc. sortData lc R ''name'' = Inr asc \<and> sortData lc R ''name-desc'' = Inr desc
       \<and> rev asc = desc)"
  using reverse_of_ascending [of R lc] by simp

lemma sample_strings: "list_all (\<lambda>r. isString (name r)) sortSample"
  by (simp add: sortSample_def isString_def)

lemma sample_names: "map (\<lambda>r. stringOf (name r)) sortSample = [''Charlie'', ''Alpha'', ''Bravo'']"
  by (simp add: sortSample_def stringOf_def)

lemma sample_order: "strictOrderOn codeUnitCompare [''Charlie'', ''Alpha'', ''Bravo'']"
  by (simp add: strictOrderOn_def)

lemma sample_asc:
  "sortData codeUnitCompare sortSample ''name'' = Inr [sortSample ! 1, sortSample ! 2, sortSample ! 0]"
  by code_simp

lemma sample_desc:
  "sortData codeUnitCompare sortSample ''name-desc''
     = Inr [sortSample ! 0, sortSample ! 2, sortSample ! 1]"
  by code_simp

theorem name_desc_is_reverse_of_name_witness:
  "list_all (\<lambda>r. isString (name r)) sortSample
   \<and> distinct (map (\<lambda>r. stringOf (name r)) sortSample)
   \<and> strictOrderOn codeUnitCompare (map (\<lambda>r. stringOf (name r)) sortSample)
   \<and> sortData codeUnitCompare sortSample ''name''
       = Inr [sortSample ! 1, sortSample ! 2, sortSample ! 0]
   \<and> sortData codeUnitCompare sortSample ''name-desc''
       = Inr (rev [sortSample ! 1, sortSample ! 2, sortSample ! 0])"
  using name_desc_is_reverse_of_name [of sortSample codeUnitCompare]
    sample_strings sample_names sample_order sample_asc sample_desc
  by (simp add: list_all_iff)

text \<open>
  Names that are pairwise distinct are not enough: the collation of a locale ties
  distinct strings that are canonically equivalent, and the sort, being stable, then
  returns the records in the order they came in for both keys.
\<close>

lemma tied_names:
  "map (\<lambda>r. stringOf (name r)) tiedSample
     = [''Caf'' @ [CHR 0xC3, CHR 0xA9], ''Cafe'' @ [CHR 0xCC, CHR 0x81]]"
  by (simp add: tiedSample_def stringOf_def)

lemma tied_compare:
  "canonicalCompare (''Caf'' @ [CHR 0xC3, CHR 0xA9]) (''Cafe'' @ [CHR 0xCC, CHR 0x81]) = 0
   \<and> canonicalCompare (''Cafe'' @ [CHR 0xCC, CHR 0x81]) (''Caf'' @ [CHR 0xC3, CHR 0xA9]) = 0"
  by (simp add: canonicalCompare_def)

lemma tied_asc: "sortData canonicalCompare tiedSample ''name'' = Inr tiedSample"
  by code_simp

lemma tied_desc: "sortData canonicalCompare tiedSample ''name-desc'' = Inr tiedSample"
  by code_simp

theorem name_desc_is_reverse_of_name_counterexample:
  "list_all (\<lambda>r. isString (name r)) tiedSample
   \<and> distinct (map (\<lambda>r. stringOf (name r)) tiedSample)
   \<and> canonicalCompare (''Caf'' @ [CHR 0xC3, CHR 0xA9]) (''Cafe'' @ [CHR 0xCC, CHR 0x81]) = 0
   \<and> sortData canonicalCompare tiedSample ''name'' = Inr tiedSample
   \<and> sortData canonicalCompare tiedSample ''name-desc'' = Inr tiedSample
   \<and> rev tiedSample \<noteq> tiedSample"
proof -
  have "list_all (\<lambda>r. isString (name r)) tiedSample"
    by (simp add: tiedSample_def isString_def)
  moreover have "distinct (map (\<lambda>r. stringOf (name r)) tiedSample)"
    by (simp add: tied_names)
  moreover have "rev tiedSample \<noteq> tiedSample"
    by (simp add: tiedSample_def)
  ultimately show ?thesis
    using tied_asc tied_desc tied_compare by simp
qed

section \<open>Sorting leaves its argument alone\<close>

lemma sortDataH_cases:
  assumes "data < length h"
  shows "sortDataH lc h data k
      = (if k = ''name'' \<or> k = ''name-desc'' \<or> k = ''type''
         then (case sortData lc (h ! data) k of
                 Inl e \<Rightarrow> (Inl e, h @ [h ! data])
               | Inr xs \<Rightarrow> (Inr (length h), h @ [xs]))
         else (Inr (length h), h @ [h ! data]))"
  using assms
  by (auto simp: sortDataH_def sortData_def arraySortH_def Let_def nth_append split: sum.splits)

text \<open>
  Claim C8. For every store \<open>h\<close>, array \<open>data\<close> of it and sort key \<open>k\<close>,
  \<open>sortData\<close> leaves every array of \<open>h\<close>, \<open>data\<close> among them, with the contents it had;
  when it returns, the result is an array that was not in \<open>h\<close>, so it is not
  \<open>data\<close>, and it holds the sorted contents.
\<close>

theorem sortData_does_not_mutate:
  "data < length h \<longrightarrow>
     (\<forall>a<length h. snd (sortDataH lc h data k) ! a = h ! a)
     \<and> snd (sortDataH lc h data k) ! data = h ! data
     \<and> length (snd (sortDataH lc h data k)) = Suc (length h)
     \<and> (\<forall>res. fst (sortDataH lc h data k) = Inr res \<longrightarrow>
          res = length h \<and> res \<noteq> data
          \<and> sortData lc (h ! data) k = Inr (snd (sortDataH lc h data k) ! res))"
proof
  assume d: "data < length h"
  note c = sortDataH_cases [OF d, of lc k]
  show "(\<forall>a<length h. snd (sortDataH lc h data k) ! a = h ! a)
     \<and> snd (sortDataH lc h data k) ! data = h ! data
     \<and> length (snd (sortDataH lc h data k)) = Suc (length h)
     \<and> (\<forall>res. fst (sortDataH lc h data k) = Inr res \<longrightarrow>
          res = length h \<and> res \<noteq> data
          \<and> sortData lc (h ! data) k = Inr (snd (sortDataH lc h data k) ! res))"
  proof (cases "sortData lc (h ! data) k")
    case (Inl e)
    with c d show ?thesis
      by (auto simp: nth_append sortData_def split: if_splits)
  next
    case (Inr xs)
    with c d show ?thesis
      by (auto simp: nth_append sortData_def split: if_splits)
  qed
qed

lemma sample_sortH:
  "sortDataH codeUnitCompare sampleHeap 0 ''name''
     = (Inr 1, [sortSample, [sortSample ! 1, sortSample ! 2, sortSample ! 0]])"
  by code_simp

theorem sortData_does_not_mutate_witness:
  "(0 :: nat) < length sampleHeap
   \<and> sortDataH codeUnitCompare sampleHeap 0 ''name''
       = (Inr 1, [sortSample, [sortSample ! 1, sortSample ! 2, sortSample ! 0]])
   \<and> snd (sortDataH codeUnitCompare sampleHeap 0 ''name'') ! 0 = sampleHeap ! 0
   \<and> sampleHeap ! 0 = sortSample"
  using sortData_does_not_mutate [of 0 sampleHeap codeUnitCompare "''name''"] sample_sortH
  by (simp add: sampleHeap_def)

section \<open>Debounce: one call for each burst\<close>















end
